theory Spec2Isabelle
  imports Complex_Main "HOL-Library.Multiset" "HOL-Library.Product_Lexorder"
begin

section \<open>Python values and the builtins the handlers use\<close>

subsection \<open>Floats\<close>

text \<open>
  A Python \<^verbatim>\<open>float\<close> is a double: a finite number, an infinity or NaN. A finite
  double is modelled by the rational number it stands for. The sign of zero is the one
  thing of a double that the model leaves out.
\<close>

datatype pyfloat = Fin rat | PInf | NInf | NaN

text \<open>
  What the platform decides for floats: \<open>of_str\<close> is \<^verbatim>\<open>float(s)\<close> on a string,
  with \<open>None\<close> when it raises \<^verbatim>\<open>ValueError\<close>, and \<open>rnd\<close> rounds the exact
  result of an operation to a number that a double with unbounded exponent can hold.
\<close>

record floats =
  of_str :: "string \<Rightarrow> pyfloat option"
  rnd :: "rat \<Rightarrow> rat"

text \<open>The largest finite double.\<close>

definition max_double :: rat where
  "max_double = (2 ^ 53 - 1) * 2 ^ 971"

text \<open>The double that an operation with the exact result \<open>x\<close> returns.\<close>

definition to_double :: "floats \<Rightarrow> rat \<Rightarrow> pyfloat" where
  "to_double fl x =
     (let y = rnd fl x
      in if max_double < y then PInf else if y < - max_double then NInf else Fin y)"

text \<open>\<^verbatim>\<open>a + b\<close>, \<^verbatim>\<open>-a\<close> and \<^verbatim>\<open>a - b\<close>.\<close>

fun fadd :: "floats \<Rightarrow> pyfloat \<Rightarrow> pyfloat \<Rightarrow> pyfloat" where
  "fadd fl (Fin a) (Fin b) = to_double fl (a + b)"
| "fadd fl NaN b = NaN"
| "fadd fl a NaN = NaN"
| "fadd fl PInf NInf = NaN"
| "fadd fl NInf PInf = NaN"
| "fadd fl PInf b = PInf"
| "fadd fl a PInf = PInf"
| "fadd fl NInf b = NInf"
| "fadd fl a NInf = NInf"

fun fneg :: "pyfloat \<Rightarrow> pyfloat" where
  "fneg (Fin a) = Fin (- a)"
| "fneg PInf = NInf"
| "fneg NInf = PInf"
| "fneg NaN = NaN"

definition fsub :: "floats \<Rightarrow> pyfloat \<Rightarrow> pyfloat \<Rightarrow> pyfloat" where
  "fsub fl a b = fadd fl a (fneg b)"

text \<open>\<^verbatim>\<open>a < b\<close> and \<^verbatim>\<open>a <= b\<close>: every comparison with NaN is false.\<close>

fun fless :: "pyfloat \<Rightarrow> pyfloat \<Rightarrow> bool" where
  "fless (Fin a) (Fin b) = (a < b)"
| "fless NInf (Fin b) = True"
| "fless NInf PInf = True"
| "fless (Fin a) PInf = True"
| "fless a b = False"

definition fle :: "pyfloat \<Rightarrow> pyfloat \<Rightarrow> bool" where
  "fle a b = (fless a b \<or> (a = b \<and> a \<noteq> NaN))"

text \<open>The exceptions that the modelled expressions can raise.\<close>

datatype exn = AttributeError | TypeError | ValueError | OverflowError | ZeroDivisionError

text \<open>\<^verbatim>\<open>a / b\<close>: a zero divisor raises, whatever the dividend.\<close>

fun fdiv :: "floats \<Rightarrow> pyfloat \<Rightarrow> pyfloat \<Rightarrow> exn + pyfloat" where
  "fdiv fl a (Fin b) =
     (if b = 0 then Inl ZeroDivisionError
      else case a of
        Fin x \<Rightarrow> Inr (to_double fl (x / b))
      | PInf \<Rightarrow> Inr (if 0 < b then PInf else NInf)
      | NInf \<Rightarrow> Inr (if 0 < b then NInf else PInf)
      | NaN \<Rightarrow> Inr NaN)"
| "fdiv fl (Fin x) PInf = Inr (Fin 0)"
| "fdiv fl (Fin x) NInf = Inr (Fin 0)"
| "fdiv fl a b = Inr NaN"

text \<open>\<^verbatim>\<open>x * 100\<close>, which the format type \<^verbatim>\<open>%\<close> computes.\<close>

fun times_100 :: "floats \<Rightarrow> pyfloat \<Rightarrow> pyfloat" where
  "times_100 fl (Fin x) = to_double fl (x * 100)"
| "times_100 fl a = a"

text \<open>
  The sum that a loop \<^verbatim>\<open>acc += x\<close> started at \<^verbatim>\<open>0.0\<close> leaves: float addition
  is neither associative nor exact, so the order of the list matters.
\<close>

definition fsum :: "floats \<Rightarrow> pyfloat list \<Rightarrow> pyfloat" where
  "fsum fl xs = foldl (fadd fl) (Fin 0) xs"

subsection \<open>Values\<close>

text \<open>
  The handlers of \<^verbatim>\<open>drip_telegram_bot.py\<close> work on the value returned by
  \<^verbatim>\<open>resp.json()\<close>, modelled by the datatype \<open>json\<close>: an integer literal is a
  Python \<^verbatim>\<open>int\<close>, any other number a float (\<^verbatim>\<open>1e999\<close> and \<^verbatim>\<open>Infinity\<close>
  are read as the infinity, \<^verbatim>\<open>NaN\<close> as NaN). A Python \<^verbatim>\<open>str\<close> is a
  \<open>string\<close>; the non-ASCII characters of the source's literals are written as their
  UTF-8 bytes, and whitespace and letter case are those of ASCII. A \<^verbatim>\<open>dict\<close> is an
  association list with distinct keys in insertion order.
\<close>

datatype json =
    JNull
  | JBool bool
  | JInt int
  | JNum pyfloat
  | JStr string
  | JArr "json list"
  | JObj "(string \<times> json) list"

text \<open>Sequencing of computations that may raise.\<close>

definition ebind :: "exn + 'a \<Rightarrow> ('a \<Rightarrow> exn + 'b) \<Rightarrow> exn + 'b" where
  "ebind m f = (case m of Inl e \<Rightarrow> Inl e | Inr x \<Rightarrow> f x)"

text \<open>Truth value of an object, as \<^verbatim>\<open>or\<close> and \<^verbatim>\<open>not\<close> test it.\<close>

fun truthy :: "json \<Rightarrow> bool" where
  "truthy JNull = False"
| "truthy (JBool b) = b"
| "truthy (JInt i) = (i \<noteq> 0)"
| "truthy (JNum x) = (x \<noteq> Fin 0)"
| "truthy (JStr s) = (s \<noteq> [])"
| "truthy (JArr xs) = (xs \<noteq> [])"
| "truthy (JObj kvs) = (kvs \<noteq> [])"

text \<open>\<^verbatim>\<open>a or b\<close>.\<close>

definition py_or :: "json \<Rightarrow> json \<Rightarrow> json" where
  "py_or a b = (if truthy a then a else b)"

text \<open>
  \<^verbatim>\<open>x.get(k, d)\<close>: only a dict has the method; on any other value the attribute
  lookup raises \<^verbatim>\<open>AttributeError\<close>.
\<close>

fun dict_get :: "json \<Rightarrow> string \<Rightarrow> json \<Rightarrow> exn + json" where
  "dict_get (JObj kvs) k d = Inr (case map_of kvs k of None \<Rightarrow> d | Some v \<Rightarrow> v)"
| "dict_get _ k d = Inl AttributeError"

text \<open>
  \<^verbatim>\<open>float(x)\<close>. An integer of absolute value up to \<open>2 ^ 53\<close> is a double; a
  larger one is rounded, and one beyond the range of the doubles raises
  \<^verbatim>\<open>OverflowError\<close>.
\<close>

fun py_float :: "floats \<Rightarrow> json \<Rightarrow> exn + pyfloat" where
  "py_float fl JNull = Inl TypeError"
| "py_float fl (JBool b) = Inr (Fin (if b then 1 else 0))"
| "py_float fl (JInt i) =
     (if \<bar>i\<bar> \<le> 2 ^ 53 then Inr (Fin (of_int i))
      else case to_double fl (of_int i) of
        Fin y \<Rightarrow> Inr (Fin y)
      | _ \<Rightarrow> Inl OverflowError)"
| "py_float fl (JNum x) = Inr x"
| "py_float fl (JStr s) = (case of_str fl s of None \<Rightarrow> Inl ValueError | Some x \<Rightarrow> Inr x)"
| "py_float fl (JArr xs) = Inl TypeError"
| "py_float fl (JObj kvs) = Inl TypeError"

text \<open>
  \<^verbatim>\<open>for p in x\<close>: a list yields its elements, a dict its keys, a string its
  characters; the other values are not iterable.
\<close>

fun py_iter :: "json \<Rightarrow> exn + json list" where
  "py_iter (JArr xs) = Inr xs"
| "py_iter (JObj kvs) = Inr (map (\<lambda>kv. JStr (fst kv)) kvs)"
| "py_iter (JStr s) = Inr (map (\<lambda>c. JStr [c]) s)"
| "py_iter _ = Inl TypeError"

subsection \<open>String methods\<close>

definition is_space :: "char \<Rightarrow> bool" where
  "is_space c = (c \<in> set [CHR '' '', CHR 0x09, CHR 0x0A, CHR 0x0B, CHR 0x0C, CHR 0x0D,
                           CHR 0x1C, CHR 0x1D, CHR 0x1E, CHR 0x1F])"

definition strip :: "string \<Rightarrow> string" where
  "strip s = rev (dropWhile is_space (rev (dropWhile is_space s)))"

definition upper_char :: "char \<Rightarrow> char" where
  "upper_char c =
     (let n = (of_char c :: nat) in if 97 \<le> n \<and> n \<le> 122 then char_of (n - 32) else c)"

definition lower_char :: "char \<Rightarrow> char" where
  "lower_char c =
     (let n = (of_char c :: nat) in if 65 \<le> n \<and> n \<le> 90 then char_of (n + 32) else c)"

definition upper :: "string \<Rightarrow> string" where
  "upper s = map upper_char s"

definition lower :: "string \<Rightarrow> string" where
  "lower s = map lower_char s"

text \<open>\<^verbatim>\<open>x.strip()\<close> on an arbitrary object: only a string has the method.\<close>

fun py_strip :: "json \<Rightarrow> exn + string" where
  "py_strip (JStr s) = Inr (strip s)"
| "py_strip _ = Inl AttributeError"

text \<open>\<^verbatim>\<open>"\n".join(lines)\<close>.\<close>

fun join_lines :: "string list \<Rightarrow> string" where
  "join_lines [] = []"
| "join_lines [l] = l"
| "join_lines (l # ls) = l @ [CHR 0x0A] @ join_lines ls"

subsection \<open>Number formatting\<close>

text \<open>Decimal digits of a natural number, as \<^verbatim>\<open>str(n)\<close> prints them.\<close>

definition digit_char :: "nat \<Rightarrow> char" where
  "digit_char d = ''0123456789'' ! d"

fun digits :: "nat \<Rightarrow> string" where
  "digits n = (if n < 10 then [digit_char n] else digits (n div 10) @ [digit_char (n mod 10)])"

declare digits.simps [simp del]

text \<open>The thousands separator of the format option \<^verbatim>\<open>,\<close>.\<close>

fun group3_rev :: "string \<Rightarrow> string" where
  "group3_rev (a # b # c # d # rest) = a # b # c # CHR '','' # group3_rev (d # rest)"
| "group3_rev s = s"

definition group3 :: "string \<Rightarrow> string" where
  "group3 s = rev (group3_rev (rev s))"

text \<open>Rounding of a nonnegative number to the nearest integer, ties to even.\<close>

definition round_half_even :: "rat \<Rightarrow> nat" where
  "round_half_even y =
     (let n = nat \<lfloor>y\<rfloor>; r = y - of_nat n
      in if r < 1 / 2 then n
         else if 1 / 2 < r then n + 1
         else if even n then n else n + 1)"

text \<open>
  The format specifications \<^verbatim>\<open>,.2f\<close> (\<open>grouped\<close>) and \<^verbatim>\<open>.2f\<close>: sign, integer
  part, point, two decimals; an infinity and NaN are spelled out.
\<close>

fun fixed2 :: "bool \<Rightarrow> pyfloat \<Rightarrow> string" where
  "fixed2 grouped (Fin x) =
     (let n = round_half_even (\<bar>x\<bar> * 100);
          whole = digits (n div 100)
      in (if x < 0 then ''-'' else '''')
         @ (if grouped then group3 whole else whole)
         @ ''.'' @ [digit_char (n mod 100 div 10), digit_char (n mod 10)])"
| "fixed2 grouped PInf = ''inf''"
| "fixed2 grouped NInf = ''-inf''"
| "fixed2 grouped NaN = ''nan''"

text \<open>
  \<^verbatim>\<open>format_usd\<close>: \<^verbatim>\<open>f"${float(val):,.2f}"\<close>, and \<^verbatim>\<open>"N/A"\<close> when the
  conversion raises.
\<close>

definition format_usd :: "floats \<Rightarrow> json \<Rightarrow> string" where
  "format_usd fl val =
     (case py_float fl val of Inl e \<Rightarrow> ''N/A'' | Inr x \<Rightarrow> ''$'' @ fixed2 True x)"

text \<open>
  \<^verbatim>\<open>format_pct\<close>: \<^verbatim>\<open>f"{val:.2%}"\<close>, which a number accepts (an integer is
  converted to a float first), and \<^verbatim>\<open>"N/A"\<close> when formatting raises.
\<close>

definition is_number :: "json \<Rightarrow> bool" where
  "is_number v = (case v of JNum x \<Rightarrow> True | JInt i \<Rightarrow> True | JBool b \<Rightarrow> True | _ \<Rightarrow> False)"

definition format_pct :: "floats \<Rightarrow> json \<Rightarrow> string" where
  "format_pct fl val =
     (if is_number val
      then (case py_float fl val of
              Inl e \<Rightarrow> ''N/A''
            | Inr x \<Rightarrow> fixed2 False (times_100 fl x) @ ''%'')
      else ''N/A'')"

subsection \<open>list.sort\<close>

text \<open>
  CPython's \<^verbatim>\<open>list.sort\<close> on a list of fewer than 64 elements, with \<open>lt\<close> for
  \<^verbatim>\<open><\<close> on the keys: \<^verbatim>\<open>count_run\<close> takes the longest run at the front that is
  non-descending, or strictly descending and then reversed, and \<^verbatim>\<open>binarysort\<close>
  inserts each further element at the place that a binary search finds. On keys that
  \<^verbatim>\<open><\<close> orders totally this is the stable sort, which a longer list gets as well (there
  CPython sorts such runs and merges them). On keys with NaN the result depends on the
  comparisons made, and the definition follows them as far as lists of 63 elements.
\<close>

fun take_asc :: "('a \<Rightarrow> 'a \<Rightarrow> bool) \<Rightarrow> 'a \<Rightarrow> 'a list \<Rightarrow> 'a list \<times> 'a list" where
  "take_asc lt prev [] = ([], [])"
| "take_asc lt prev (x # xs) =
     (if lt x prev then ([], x # xs)
      else (let (run, rest) = take_asc lt x xs in (x # run, rest)))"

fun take_desc :: "('a \<Rightarrow> 'a \<Rightarrow> bool) \<Rightarrow> 'a \<Rightarrow> 'a list \<Rightarrow> 'a list \<times> 'a list" where
  "take_desc lt prev [] = ([], [])"
| "take_desc lt prev (x # xs) =
     (if lt x prev then (let (run, rest) = take_desc lt x xs in (x # run, rest))
      else ([], x # xs))"

text \<open>The sorted front and the rest of the list, after \<^verbatim>\<open>count_run\<close>.\<close>

fun count_run :: "('a \<Rightarrow> 'a \<Rightarrow> bool) \<Rightarrow> 'a list \<Rightarrow> 'a list \<times> 'a list" where
  "count_run lt (a # b # xs) =
     (if lt b a then (let (run, rest) = take_desc lt b xs in (rev (a # b # run), rest))
      else (let (run, rest) = take_asc lt b xs in (a # b # run, rest)))"
| "count_run lt xs = (xs, [])"

text \<open>The binary search of \<^verbatim>\<open>binarysort\<close> for the place of \<open>pivot\<close> in \<open>xs\<close>.\<close>

function bisect :: "('a \<Rightarrow> 'a \<Rightarrow> bool) \<Rightarrow> 'a \<Rightarrow> 'a list \<Rightarrow> nat \<Rightarrow> nat \<Rightarrow> nat" where
  "bisect lt pivot xs l r =
     (if l < r
      then (let p = l + (r - l) div 2
            in if lt pivot (xs ! p) then bisect lt pivot xs l p
               else bisect lt pivot xs (p + 1) r)
      else l)"
  by pat_completeness auto
termination
  by (relation "measure (\<lambda>(lt, pivot, xs, l, r). r - l)") auto

declare bisect.simps [simp del]

definition binary_insert :: "('a \<Rightarrow> 'a \<Rightarrow> bool) \<Rightarrow> 'a list \<Rightarrow> 'a \<Rightarrow> 'a list" where
  "binary_insert lt xs pivot =
     (let l = bisect lt pivot xs 0 (length xs) in take l xs @ pivot # drop l xs)"

definition list_sort :: "('a \<Rightarrow> 'a \<Rightarrow> bool) \<Rightarrow> 'a list \<Rightarrow> 'a list" where
  "list_sort lt xs = (let (run, rest) = count_run lt xs in foldl (binary_insert lt) run rest)"

section \<open>The report handlers\<close>

subsection \<open>Numeric fields of a pair\<close>

text \<open>\<^verbatim>\<open>float(p.get("liquidity", {}).get("usd") or 0)\<close>.\<close>

definition liquidity_usd :: "floats \<Rightarrow> json \<Rightarrow> exn + pyfloat" where
  "liquidity_usd fl p =
     ebind (dict_get p ''liquidity'' (JObj [])) (\<lambda>liq.
     ebind (dict_get liq ''usd'' JNull) (\<lambda>usd.
     py_float fl (py_or usd (JInt 0))))"

text \<open>\<^verbatim>\<open>float(p.get("volume", {}).get("h24") or 0)\<close>.\<close>

definition volume_h24 :: "floats \<Rightarrow> json \<Rightarrow> exn + pyfloat" where
  "volume_h24 fl p =
     ebind (dict_get p ''volume'' (JObj [])) (\<lambda>vol.
     ebind (dict_get vol ''h24'' JNull) (\<lambda>h24.
     py_float fl (py_or h24 (JInt 0))))"

subsection \<open>Labels and icons\<close>

text \<open>
  \<^verbatim>\<open>(p.get(tok, {}).get("symbol") or "?").strip()\<close> for \<open>tok\<close> one of
  \<^verbatim>\<open>"baseToken"\<close>, \<^verbatim>\<open>"quoteToken"\<close>. Nothing catches what this expression raises.
\<close>

definition token_symbol :: "json \<Rightarrow> string \<Rightarrow> exn + string" where
  "token_symbol p tok =
     ebind (dict_get p tok (JObj [])) (\<lambda>t.
     ebind (dict_get t ''symbol'' JNull) (\<lambda>sym.
     py_strip (py_or sym (JStr ''?''))))"

text \<open>\<^verbatim>\<open>(p.get("dexId", "unknown") or "unknown").strip()\<close>.\<close>

definition dex_id :: "json \<Rightarrow> exn + string" where
  "dex_id p =
     ebind (dict_get p ''dexId'' (JStr ''unknown'')) (\<lambda>d.
     py_strip (py_or d (JStr ''unknown'')))"

text \<open>The three labels of a block, evaluated in the source's order.\<close>

definition pair_labels :: "json \<Rightarrow> exn + (string \<times> string \<times> string)" where
  "pair_labels p =
     ebind (token_symbol p ''baseToken'') (\<lambda>base.
     ebind (token_symbol p ''quoteToken'') (\<lambda>quote.
     ebind (dex_id p) (\<lambda>dex. Inr (base, quote, dex))))"

text \<open>The medals and the money bag, as UTF-8.\<close>

definition first_place :: string where
  "first_place = [CHR 0xF0, CHR 0x9F, CHR 0xA5, CHR 0x87]"

definition second_place :: string where
  "second_place = [CHR 0xF0, CHR 0x9F, CHR 0xA5, CHR 0x88]"

definition third_place :: string where
  "third_place = [CHR 0xF0, CHR 0x9F, CHR 0xA5, CHR 0x89]"

definition money_bag :: string where
  "money_bag = [CHR 0xF0, CHR 0x9F, CHR 0x92, CHR 0xB0]"

definition bar_chart :: string where
  "bar_chart = [CHR 0xF0, CHR 0x9F, CHR 0x93, CHR 0x8A]"

definition division_sign :: string where
  "division_sign = [CHR 0xC3, CHR 0xB7]"

text \<open>The \<^verbatim>\<open>if i == 0 ... elif ... else\<close> chain of both rendering loops.\<close>

definition icon :: "nat \<Rightarrow> string" where
  "icon i =
     (if i = 0 then first_place
      else if i = 1 then second_place
      else if i = 2 then third_place
      else money_bag)"

subsection \<open>sorted with a key, in reverse\<close>

text \<open>
  \<^verbatim>\<open>sorted(xs, key=key, reverse=True)\<close>: the key of every element is computed
  first, in order, and an exception of the key function leaves \<^verbatim>\<open>sorted\<close>; then
  the list is reversed, sorted by \<^verbatim>\<open>list.sort\<close> with \<^verbatim>\<open><\<close> on the keys, and
  reversed again.
\<close>

fun key_list :: "('a \<Rightarrow> exn + pyfloat) \<Rightarrow> 'a list \<Rightarrow> exn + pyfloat list" where
  "key_list key [] = Inr []"
| "key_list key (x # xs) =
     (case key x of
        Inl e \<Rightarrow> Inl e
      | Inr k \<Rightarrow> (case key_list key xs of Inl e \<Rightarrow> Inl e | Inr ks \<Rightarrow> Inr (k # ks)))"

definition key_less :: "pyfloat \<times> 'a \<Rightarrow> pyfloat \<times> 'a \<Rightarrow> bool" where
  "key_less a b = fless (fst a) (fst b)"

definition sorted_reverse :: "('a \<Rightarrow> exn + pyfloat) \<Rightarrow> 'a list \<Rightarrow> exn + 'a list" where
  "sorted_reverse key xs =
     (case key_list key xs of
        Inl e \<Rightarrow> Inl e
      | Inr ks \<Rightarrow> Inr (map snd (rev (list_sort key_less (rev (zip ks xs))))))"

subsection \<open>handle_volume\<close>

text \<open>What a handler does with the update: one reply, or an exception that leaves it.\<close>

datatype outcome = Reply string | ReplyMarkdown string | Raised exn

text \<open>The filtering loop (source lines 93 to 100).\<close>

fun filtered_pairs :: "floats \<Rightarrow> json list \<Rightarrow> json list" where
  "filtered_pairs fl [] = []"
| "filtered_pairs fl (p # ps) =
     (let liquidity_val = (case liquidity_usd fl p of Inl e \<Rightarrow> Fin 0 | Inr v \<Rightarrow> v)
      in if fless (Fin 0) liquidity_val then p # filtered_pairs fl ps else filtered_pairs fl ps)"

text \<open>\<^verbatim>\<open>pairs_sorted\<close> (source lines 107 to 111): the key is not guarded.\<close>

definition pairs_sorted :: "floats \<Rightarrow> json list \<Rightarrow> exn + json list" where
  "pairs_sorted fl fp = sorted_reverse (volume_h24 fl) fp"

text \<open>The variables that the rendering loop updates.\<close>

record vol_state =
  lines :: "string list"
  total_volume :: pyfloat
  sol_ray_vol :: pyfloat

definition volume_line ::
  "floats \<Rightarrow> nat \<Rightarrow> string \<Rightarrow> string \<Rightarrow> string \<Rightarrow> pyfloat \<Rightarrow> pyfloat \<Rightarrow> string" where
  "volume_line fl i base quote dex liquidity_val vol24h_val =
     icon i @ '' '' @ base @ ''/'' @ quote @ '' ('' @ dex @ '') -'' @ [CHR 0x0A]
     @ ''Liquidity: *'' @ format_usd fl (JNum liquidity_val) @ ''* '' @ [CHR 0x0A]
     @ ''24H Volume: *'' @ format_usd fl (JNum vol24h_val) @ ''*'' @ [CHR 0x0A, CHR 0x0A]"

text \<open>The test of source line 152, without \<^verbatim>\<open>show_summary\<close>.\<close>

definition is_sol_ray :: "string \<Rightarrow> string \<Rightarrow> string \<Rightarrow> bool" where
  "is_sol_ray base quote dex =
     ({upper base, upper quote} = {''SOL'', ''DRIP''} \<and> lower (strip dex) = ''raydium'')"

text \<open>
  The rendering loop (source lines 117 to 153), from index \<open>i\<close> on. The first
  \<^verbatim>\<open>except\<close> is the \<^verbatim>\<open>continue\<close>; the second sets the volume to 0.
\<close>

fun volume_loop ::
  "floats \<Rightarrow> bool \<Rightarrow> nat \<Rightarrow> json list \<Rightarrow> vol_state \<Rightarrow> exn + vol_state" where
  "volume_loop fl show_summary i [] st = Inr st"
| "volume_loop fl show_summary i (p # ps) st =
     (case pair_labels p of
        Inl e \<Rightarrow> Inl e
      | Inr (base, quote, dex) \<Rightarrow>
          (case liquidity_usd fl p of
             Inl e \<Rightarrow> volume_loop fl show_summary (Suc i) ps st
           | Inr liquidity_val \<Rightarrow>
               (let vol24h_val = (case volume_h24 fl p of Inl e \<Rightarrow> Fin 0 | Inr v \<Rightarrow> v);
                    line = volume_line fl i base quote dex liquidity_val vol24h_val
                in volume_loop fl show_summary (Suc i) ps
                     \<lparr> lines = lines st @ [line],
                       total_volume = fadd fl (total_volume st) vol24h_val,
                       sol_ray_vol =
                         (if show_summary \<and> is_sol_ray base quote dex
                          then fadd fl (sol_ray_vol st) vol24h_val else sol_ray_vol st) \<rparr>)))"

definition volume_header :: "nat \<Rightarrow> string" where
  "volume_header n = ''Found '' @ digits n @ '' active LP pairs'' @ [CHR 0x0A]"

text \<open>The summary block (source lines 155 to 159).\<close>

definition summary_lines :: "floats \<Rightarrow> vol_state \<Rightarrow> string list" where
  "summary_lines fl st =
     (let total_other_vol = fsub fl (total_volume st) (sol_ray_vol st)
      in [bar_chart @ '' Summary (24H Volume):'',
          ''- SOL/DRIP (raydium): *'' @ format_usd fl (JNum (sol_ray_vol st)) @ ''*'',
          ''- All others combined: *'' @ format_usd fl (JNum total_other_vol) @ ''*''])"

text \<open>The state in which the rendering loop ends, for a sorted list.\<close>

definition render_volume ::
  "floats \<Rightarrow> bool \<Rightarrow> json list \<Rightarrow> exn + vol_state" where
  "render_volume fl show_summary sorted_ps =
     volume_loop fl show_summary 0 sorted_ps
       \<lparr> lines = [volume_header (length sorted_ps)], total_volume = Fin 0, sol_ray_vol = Fin 0 \<rparr>"

text \<open>\<^verbatim>\<open>handle_volume\<close> after the fetch, on the fetched value \<open>data\<close>.\<close>

definition volume_report :: "floats \<Rightarrow> bool \<Rightarrow> json \<Rightarrow> outcome" where
  "volume_report fl show_summary data =
     (case dict_get data ''pairs'' JNull of
        Inl e \<Rightarrow> Raised e
      | Inr v \<Rightarrow>
          (let pairs = py_or v (JArr []) in
           if \<not> truthy pairs then Reply ''No pairs found in DexScreener response.''
           else case py_iter pairs of
             Inl e \<Rightarrow> Raised e
           | Inr ps \<Rightarrow>
               (let fp = filtered_pairs fl ps in
                if fp = [] then Reply ''No valid LP pairs with liquidity found.''
                else case pairs_sorted fl fp of
                  Inl e \<Rightarrow> Raised e
                | Inr sorted_ps \<Rightarrow>
                    (case render_volume fl show_summary sorted_ps of
                       Inl e \<Rightarrow> Raised e
                     | Inr st \<Rightarrow>
                         ReplyMarkdown (join_lines
                           (lines st @ (if show_summary then summary_lines fl st else [])))))))"

text \<open>
  A run of a handler: the addresses it asked \<^verbatim>\<open>fetch_token_endpoint\<close> for, and
  its outcome. The endpoint is the parameter \<open>fetch\<close>; \<open>Inl msg\<close> is an exception
  whose text is \<open>msg\<close>.
\<close>

record run =
  fetched :: "string list"
  outcome :: outcome

definition handle_volume ::
  "floats \<Rightarrow> (string \<Rightarrow> string + json) \<Rightarrow> string \<Rightarrow> bool \<Rightarrow> run" where
  "handle_volume fl fetch contract_address show_summary =
     (case fetch contract_address of
        Inl msg \<Rightarrow>
          \<lparr> fetched = [contract_address], outcome = Reply (''Error fetching data: '' @ msg) \<rparr>
      | Inr data \<Rightarrow>
          \<lparr> fetched = [contract_address], outcome = volume_report fl show_summary data \<rparr>)"

subsection \<open>handle_ratio\<close>

text \<open>
  The loop that collects \<^verbatim>\<open>ratios\<close> (source lines 178 to 187). The division is
  outside the \<^verbatim>\<open>try\<close>, so what it raised would leave the handler.
\<close>

type_synonym ratio_row = "pyfloat \<times> pyfloat \<times> pyfloat \<times> json"

fun ratios :: "floats \<Rightarrow> json list \<Rightarrow> exn + ratio_row list" where
  "ratios fl [] = Inr []"
| "ratios fl (p # ps) =
     (case ebind (liquidity_usd fl p) (\<lambda>l. ebind (volume_h24 fl p) (\<lambda>v. Inr (l, v))) of
        Inl e \<Rightarrow> ratios fl ps
      | Inr (liquidity_val, vol24h_val) \<Rightarrow>
          if fless (Fin 0) liquidity_val \<and> fless (Fin 0) vol24h_val
          then ebind (fdiv fl vol24h_val liquidity_val) (\<lambda>ratio_val.
               ebind (ratios fl ps) (\<lambda>rs.
               Inr ((ratio_val, liquidity_val, vol24h_val, p) # rs)))
          else ratios fl ps)"

definition ratios_sorted :: "ratio_row list \<Rightarrow> exn + ratio_row list" where
  "ratios_sorted rs = sorted_reverse (\<lambda>x. Inr (fst x)) rs"

definition ratio_line ::
  "floats \<Rightarrow> nat \<Rightarrow> string \<Rightarrow> string \<Rightarrow> string \<Rightarrow> pyfloat \<Rightarrow> pyfloat \<Rightarrow> pyfloat
     \<Rightarrow> string" where
  "ratio_line fl i base quote dex liquidity_val vol24h_val ratio_val =
     icon i @ '' '' @ base @ ''/'' @ quote @ '' ('' @ dex @ '') -'' @ [CHR 0x0A]
     @ ''Liquidity: *'' @ format_usd fl (JNum liquidity_val) @ ''* '' @ [CHR 0x0A]
     @ ''24H Volume: *'' @ format_usd fl (JNum vol24h_val) @ ''* '' @ [CHR 0x0A]
     @ ''Ratio: *'' @ format_pct fl (JNum ratio_val) @ ''*'' @ [CHR 0x0A, CHR 0x0A]"

text \<open>The rendering loop (source lines 196 to 220), from index \<open>i\<close> on.\<close>

fun ratio_loop ::
  "floats \<Rightarrow> nat \<Rightarrow> ratio_row list \<Rightarrow> string list \<Rightarrow> exn + string list" where
  "ratio_loop fl i [] ls = Inr ls"
| "ratio_loop fl i ((ratio_val, liquidity_val, vol24h_val, p) # rs) ls =
     (case pair_labels p of
        Inl e \<Rightarrow> Inl e
      | Inr (base, quote, dex) \<Rightarrow>
          ratio_loop fl (Suc i) rs
            (ls @ [ratio_line fl i base quote dex liquidity_val vol24h_val ratio_val]))"

definition ratio_header :: "nat \<Rightarrow> string" where
  "ratio_header n =
     ''Found '' @ digits n @ '' LP pairs ranked by ratio (24H Volume '' @ division_sign
     @ '' Liquidity)'' @ [CHR 0x0A]"

definition render_ratio ::
  "floats \<Rightarrow> ratio_row list \<Rightarrow> exn + string list" where
  "render_ratio fl sorted_rs = ratio_loop fl 0 sorted_rs [ratio_header (length sorted_rs)]"

text \<open>\<^verbatim>\<open>handle_ratio\<close> after the fetch.\<close>

definition ratio_report :: "floats \<Rightarrow> json \<Rightarrow> outcome" where
  "ratio_report fl data =
     (case dict_get data ''pairs'' JNull of
        Inl e \<Rightarrow> Raised e
      | Inr v \<Rightarrow>
          (let pairs = py_or v (JArr []) in
           if \<not> truthy pairs then Reply ''No pairs found in DexScreener response.''
           else case py_iter pairs of
             Inl e \<Rightarrow> Raised e
           | Inr ps \<Rightarrow>
               (case ratios fl ps of
                  Inl e \<Rightarrow> Raised e
                | Inr rs \<Rightarrow>
                    if rs = [] then Reply ''No valid pairs with ratio data found.''
                    else case ratios_sorted rs of
                      Inl e \<Rightarrow> Raised e
                    | Inr sorted_rs \<Rightarrow>
                        (case render_ratio fl sorted_rs of
                           Inl e \<Rightarrow> Raised e
                         | Inr ls \<Rightarrow> ReplyMarkdown (join_lines ls)))))"

definition handle_ratio ::
  "floats \<Rightarrow> (string \<Rightarrow> string + json) \<Rightarrow> string \<Rightarrow> run" where
  "handle_ratio fl fetch contract_address =
     (case fetch contract_address of
        Inl msg \<Rightarrow>
          \<lparr> fetched = [contract_address], outcome = Reply (''Error fetching data: '' @ msg) \<rparr>
      | Inr data \<Rightarrow> \<lparr> fetched = [contract_address], outcome = ratio_report fl data \<rparr>)"

subsection \<open>Command wrappers\<close>

definition home_token :: string where
  "home_token = ''w131jbryFvFEmtqmZvx42Meiuc4Drmu3nodTdVgkREV''"

definition volume :: "floats \<Rightarrow> (string \<Rightarrow> string + json) \<Rightarrow> run" where
  "volume fl fetch = handle_volume fl fetch home_token True"

definition ratio :: "floats \<Rightarrow> (string \<Rightarrow> string + json) \<Rightarrow> run" where
  "ratio fl fetch = handle_ratio fl fetch home_token"

text \<open>\<open>args\<close> is \<^verbatim>\<open>context.args\<close>, the words after the command.\<close>

definition volume_other ::
  "floats \<Rightarrow> (string \<Rightarrow> string + json) \<Rightarrow> string list \<Rightarrow> run" where
  "volume_other fl fetch args =
     (case args of
        [] \<Rightarrow> \<lparr> fetched = [], outcome = Reply ''Usage: /volume_other <TOKEN_CA>'' \<rparr>
      | contract_address # _ \<Rightarrow> handle_volume fl fetch contract_address False)"

definition ratio_other ::
  "floats \<Rightarrow> (string \<Rightarrow> string + json) \<Rightarrow> string list \<Rightarrow> run" where
  "ratio_other fl fetch args =
     (case args of
        [] \<Rightarrow> \<lparr> fetched = [], outcome = Reply ''Usage: /ratio_other <TOKEN_CA>'' \<rparr>
      | contract_address # _ \<Rightarrow> handle_ratio fl fetch contract_address)"

section \<open>Quantities that the statements speak of\<close>

text \<open>
  The 24-hour volume that the rendering loop of \<^verbatim>\<open>handle_volume\<close> shows and adds
  for a pair (source lines 126 to 129).
\<close>

definition vol24h :: "floats \<Rightarrow> json \<Rightarrow> pyfloat" where
  "vol24h fl p = (case volume_h24 fl p of Inl e \<Rightarrow> Fin 0 | Inr v \<Rightarrow> v)"

text \<open>The pairs that the summary counts as SOL/DRIP on raydium.\<close>

definition sol_ray_pair :: "json \<Rightarrow> bool" where
  "sol_ray_pair p =
     (case pair_labels p of
        Inl e \<Rightarrow> False
      | Inr (base, quote, dex) \<Rightarrow> is_sol_ray base quote dex)"

text \<open>The block of text of the pair at index \<open>i\<close> of a volume report.\<close>

definition volume_block :: "floats \<Rightarrow> nat \<Rightarrow> json \<Rightarrow> string" where
  "volume_block fl i p =
     (case pair_labels p of
        Inl e \<Rightarrow> []
      | Inr (base, quote, dex) \<Rightarrow>
          (case liquidity_usd fl p of
             Inl e \<Rightarrow> []
           | Inr liquidity_val \<Rightarrow>
               volume_line fl i base quote dex liquidity_val (vol24h fl p)))"

text \<open>The block of text of the entry at index \<open>i\<close> of a ratio report.\<close>

definition ratio_block ::
  "floats \<Rightarrow> nat \<Rightarrow> ratio_row \<Rightarrow> string" where
  "ratio_block fl i x =
     (case x of (r, liquidity_val, vol24h_val, p) \<Rightarrow>
        (case pair_labels p of
           Inl e \<Rightarrow> []
         | Inr (base, quote, dex) \<Rightarrow>
             ratio_line fl i base quote dex liquidity_val vol24h_val r))"

text \<open>
  A pair takes part in the ratio ranking when both of its numbers convert and are
  positive; its entry in \<^verbatim>\<open>ratios\<close> is then \<open>ratio_entry\<close>.
\<close>

definition ratio_eligible :: "floats \<Rightarrow> json \<Rightarrow> bool" where
  "ratio_eligible fl p =
     (case liquidity_usd fl p of
        Inl e \<Rightarrow> False
      | Inr l \<Rightarrow>
          (case volume_h24 fl p of
             Inl e \<Rightarrow> False
           | Inr v \<Rightarrow> fless (Fin 0) l \<and> fless (Fin 0) v))"

definition ratio_entry :: "floats \<Rightarrow> json \<Rightarrow> ratio_row" where
  "ratio_entry fl p =
     (let l = projr (liquidity_usd fl p); v = projr (volume_h24 fl p)
      in (projr (fdiv fl v l), l, v, p))"

subsection \<open>The two pairs of the specification's example\<close>

definition drip_sol :: json where
  "drip_sol = JObj [(''baseToken'', JObj [(''symbol'', JStr ''DRIP'')]),
     (''quoteToken'', JObj [(''symbol'', JStr ''SOL'')]), (''dexId'', JStr ''raydium''),
     (''liquidity'', JObj [(''usd'', JInt 10000)]), (''volume'', JObj [(''h24'', JInt 5000)])]"

definition drip_usdc :: json where
  "drip_usdc = JObj [(''baseToken'', JObj [(''symbol'', JStr ''DRIP'')]),
     (''quoteToken'', JObj [(''symbol'', JStr ''USDC'')]), (''dexId'', JStr ''orca''),
     (''liquidity'', JObj [(''usd'', JInt 2000)]), (''volume'', JObj [(''h24'', JInt 8000)])]"

text \<open>Two pairs with liquidity whose volume field is malformed.\<close>

definition text_volume_pair :: json where
  "text_volume_pair = JObj [(''baseToken'', JObj [(''symbol'', JStr ''DRIP'')]),
     (''quoteToken'', JObj [(''symbol'', JStr ''USDC'')]), (''dexId'', JStr ''orca''),
     (''liquidity'', JObj [(''usd'', JInt 1000)]), (''volume'', JObj [(''h24'', JStr ''abc'')])]"

definition null_volume_pair :: json where
  "null_volume_pair = JObj [(''baseToken'', JObj [(''symbol'', JStr ''DRIP'')]),
     (''quoteToken'', JObj [(''symbol'', JStr ''USDC'')]), (''dexId'', JStr ''orca''),
     (''liquidity'', JObj [(''usd'', JInt 1000)]), (''volume'', JNull)]"

text \<open>
  The list that \<^verbatim>\<open>sorted(xs, key=f, reverse=True)\<close> returns when no key raises.
\<close>

definition sort_desc :: "('a \<Rightarrow> pyfloat) \<Rightarrow> 'a list \<Rightarrow> 'a list" where
  "sort_desc f xs = map snd (rev (list_sort key_less (rev (map (\<lambda>x. (f x, x)) xs))))"

text \<open>The value shown as "All others combined" (source line 156).\<close>

definition total_other_vol :: "floats \<Rightarrow> vol_state \<Rightarrow> pyfloat" where
  "total_other_vol fl st = fsub fl (total_volume st) (sol_ray_vol st)"

text \<open>A list of floats that \<^verbatim>\<open>>=\<close> orders from each element to every later one.\<close>

definition non_increasing :: "pyfloat list \<Rightarrow> bool" where
  "non_increasing ks = sorted_wrt (\<lambda>a b. fle b a) ks"



text \<open>
  The floats that are not NaN, in their order, as pairs under the lexicographic order.
\<close>

fun ord_key :: "pyfloat \<Rightarrow> int \<times> rat" where
  "ord_key NInf = (- 1, 0)"
| "ord_key (Fin x) = (0, x)"
| "ord_key PInf = (1, 0)"
| "ord_key NaN = (2, 0)"

subsection \<open>Floats and pairs of the examples\<close>

text \<open>
  In the examples no string converts, and the results of the operations are numbers
  that a double holds, so that rounding leaves them as they are.
\<close>

definition demo :: floats where
  "demo = \<lparr> of_str = (\<lambda>s. None), rnd = (\<lambda>x. x) \<rparr>"


text \<open>
  Three pairs with the ratios 1, \<^verbatim>\<open>1e999 / 1e999\<close> and 2, in this order.
\<close>

definition ratio_one_pair :: json where
  "ratio_one_pair = JObj [(''baseToken'', JObj [(''symbol'', JStr ''A'')]),
     (''quoteToken'', JObj [(''symbol'', JStr ''SOL'')]), (''dexId'', JStr ''orca''),
     (''liquidity'', JObj [(''usd'', JInt 10000)]), (''volume'', JObj [(''h24'', JInt 10000)])]"

definition ratio_nan_pair :: json where
  "ratio_nan_pair = JObj [(''baseToken'', JObj [(''symbol'', JStr ''B'')]),
     (''quoteToken'', JObj [(''symbol'', JStr ''SOL'')]), (''dexId'', JStr ''orca''),
     (''liquidity'', JObj [(''usd'', JNum PInf)]), (''volume'', JObj [(''h24'', JNum PInf)])]"

definition ratio_two_pair :: json where
  "ratio_two_pair = JObj [(''baseToken'', JObj [(''symbol'', JStr ''C'')]),
     (''quoteToken'', JObj [(''symbol'', JStr ''SOL'')]), (''dexId'', JStr ''orca''),
     (''liquidity'', JObj [(''usd'', JInt 1000)]), (''volume'', JObj [(''h24'', JInt 2000)])]"

section \<open>Properties of list.sort\<close>

lemma take_asc_append: "take_asc lt prev xs = (run, rest) \<Longrightarrow> run @ rest = xs"
  by (induction xs arbitrary: prev run rest) (auto split: if_splits prod.splits)

lemma take_desc_append: "take_desc lt prev xs = (run, rest) \<Longrightarrow> run @ rest = xs"
  by (induction xs arbitrary: prev run rest) (auto split: if_splits prod.splits)

lemma count_run_mset: "count_run lt xs = (run, rest) \<Longrightarrow> mset run + mset rest = mset xs"
proof (induction lt xs rule: count_run.induct)
  case (1 lt a b xs)
  then show ?case
    by (auto split: if_splits prod.splits dest!: take_asc_append take_desc_append)
qed auto

lemma binary_insert_mset: "mset (binary_insert lt xs pivot) = add_mset pivot (mset xs)"
proof -
  have "mset (take l xs @ pivot # drop l xs) = add_mset pivot (mset xs)" for l
    by (metis append_take_drop_id mset_append union_mset_add_mset_right mset.simps(2))
  then show ?thesis by (simp add: binary_insert_def Let_def)
qed

lemma foldl_binary_insert_mset:
  "mset (foldl (binary_insert lt) run rest) = mset run + mset rest"
  by (induction rest arbitrary: run) (simp_all add: binary_insert_mset)

lemma list_sort_mset: "mset (list_sort lt xs) = mset xs"
  by (auto simp: list_sort_def foldl_binary_insert_mset count_run_mset split: prod.splits)

lemma take_asc_sorted:
  fixes f :: "'a \<Rightarrow> 'o::linorder"
  assumes "take_asc lt prev xs = (run, rest)"
    and "\<forall>a\<in>insert prev (set xs). \<forall>b\<in>insert prev (set xs). lt a b = (f a < f b)"
  shows "sorted (map f (prev # run))"
  using assms
proof (induction xs arbitrary: prev run rest)
  case Nil
  then show ?case by simp
next
  case (Cons x xs)
  show ?case
  proof (cases "lt x prev")
    case True
    with Cons.prems show ?thesis by simp
  next
    case False
    obtain run' rest' where t: "take_asc lt x xs = (run', rest')" by (cases "take_asc lt x xs")
    with False Cons.prems have run: "run = x # run'" by simp
    from False Cons.prems have le: "f prev \<le> f x" by (auto simp: not_less)
    have "sorted (map f (x # run'))"
      using Cons.IH [OF t] Cons.prems(2) by auto
    with le show ?thesis unfolding run by auto
  qed
qed

lemma take_desc_strict:
  fixes f :: "'a \<Rightarrow> 'o::linorder"
  assumes "take_desc lt prev xs = (run, rest)"
    and "\<forall>a\<in>insert prev (set xs). \<forall>b\<in>insert prev (set xs). lt a b = (f a < f b)"
  shows "sorted_wrt (\<lambda>a b. f b < f a) (prev # run)"
  using assms
proof (induction xs arbitrary: prev run rest)
  case Nil
  then show ?case by simp
next
  case (Cons x xs)
  show ?case
  proof (cases "lt x prev")
    case False
    with Cons.prems show ?thesis by simp
  next
    case True
    obtain run' rest' where t: "take_desc lt x xs = (run', rest')" by (cases "take_desc lt x xs")
    with True Cons.prems have run: "run = x # run'" by simp
    from True Cons.prems have less: "f x < f prev" by auto
    have "sorted_wrt (\<lambda>a b. f b < f a) (x # run')"
      using Cons.IH [OF t] Cons.prems(2) by auto
    with less show ?thesis unfolding run by auto
  qed
qed

lemma strict_desc_filter_rev:
  fixes f :: "'a \<Rightarrow> 'o::linorder"
  assumes "sorted_wrt (\<lambda>a b. f b < f a) xs"
  shows "filter (\<lambda>y. f y = k) (rev xs) = filter (\<lambda>y. f y = k) xs"
  using assms
proof (induction xs)
  case Nil
  then show ?case by simp
next
  case (Cons x xs)
  then have ih: "filter (\<lambda>y. f y = k) (rev xs) = filter (\<lambda>y. f y = k) xs" by simp
  from Cons.prems have lt: "\<forall>y\<in>set xs. f y < f x" by simp
  show ?case
  proof (cases "f x = k")
    case True
    with lt have "filter (\<lambda>y. f y = k) xs = []" by (auto simp: filter_empty_conv)
    with True ih show ?thesis by simp
  next
    case False
    with ih show ?thesis by simp
  qed
qed

lemma strict_desc_rev_sorted:
  fixes f :: "'a \<Rightarrow> 'o::linorder"
  assumes "sorted_wrt (\<lambda>a b. f b < f a) xs"
  shows "sorted (map f (rev xs))"
proof -
  have "sorted_wrt (\<lambda>a b. f a \<le> f b) (rev xs)"
    unfolding sorted_wrt_rev using assms by (rule sorted_wrt_mono_rel [rotated]) auto
  then show ?thesis by (simp add: sorted_map)
qed

lemma count_run_sorted:
  fixes f :: "'a \<Rightarrow> 'o::linorder"
  assumes "count_run lt xs = (run, rest)"
    and "\<forall>a\<in>set xs. \<forall>b\<in>set xs. lt a b = (f a < f b)"
  shows "\<exists>pre. xs = pre @ rest \<and> sorted (map f run)
           \<and> (\<forall>k. filter (\<lambda>y. f y = k) run = filter (\<lambda>y. f y = k) pre)"
proof (cases "\<exists>a b ys. xs = a # b # ys")
  case False
  then have "xs = [] \<or> (\<exists>v. xs = [v])"
    by (cases xs; cases "tl xs") auto
  with assms(1) show ?thesis by auto
next
  case True
  then obtain a b ys where xs: "xs = a # b # ys" by blast
  show ?thesis
  proof (cases "lt b a")
    case True
    obtain r rest' where t: "take_desc lt b ys = (r, rest')" by (cases "take_desc lt b ys")
    with True assms(1) xs have run: "run = rev (a # b # r)" and rest: "rest = rest'" by simp_all
    from take_desc_append [OF t] have ys: "ys = r @ rest" by (simp add: rest)
    have "sorted_wrt (\<lambda>a b. f b < f a) (b # r)"
      using take_desc_strict [OF t, of f] assms(2) xs by auto
    moreover from True assms(2) xs have "f b < f a" by auto
    ultimately have s: "sorted_wrt (\<lambda>a b. f b < f a) (a # b # r)" by auto
    show ?thesis
      using strict_desc_rev_sorted [OF s] strict_desc_filter_rev [OF s]
      by (intro exI [of _ "a # b # r"]) (simp add: xs ys run)
  next
    case False
    obtain r rest' where t: "take_asc lt b ys = (r, rest')" by (cases "take_asc lt b ys")
    with False assms(1) xs have run: "run = a # b # r" and rest: "rest = rest'" by simp_all
    from take_asc_append [OF t] have ys: "ys = r @ rest" by (simp add: rest)
    have "sorted (map f (b # r))"
      using take_asc_sorted [OF t, of f] assms(2) xs by auto
    moreover from False assms(2) xs have "f a \<le> f b" by (auto simp: not_less)
    ultimately have "sorted (map f (a # b # r))" by auto
    then show ?thesis
      by (intro exI [of _ "a # b # r"]) (simp add: xs ys run)
  qed
qed

lemma bisect_place:
  fixes f :: "'a \<Rightarrow> 'o::linorder"
  assumes "sorted (map f xs)"
    and "\<forall>y\<in>set xs. lt pivot y = (f pivot < f y)"
    and "l \<le> r" and "r \<le> length xs"
    and "\<forall>i<l. f (xs ! i) \<le> f pivot"
    and "\<forall>i. r \<le> i \<and> i < length xs \<longrightarrow> f pivot < f (xs ! i)"
  shows "l \<le> bisect lt pivot xs l r \<and> bisect lt pivot xs l r \<le> r
       \<and> (\<forall>i<bisect lt pivot xs l r. f (xs ! i) \<le> f pivot)
       \<and> (\<forall>i. bisect lt pivot xs l r \<le> i \<and> i < length xs \<longrightarrow> f pivot < f (xs ! i))"
  using assms
proof (induction lt pivot xs l r rule: bisect.induct)
  case (1 lt pivot xs l r)
  show ?case
  proof (cases "l < r")
    case False
    with "1.prems" show ?thesis by (simp add: bisect.simps)
  next
    case True
    define p where "p = l + (r - l) div 2"
    from True have p: "l \<le> p" "p < r" by (auto simp: p_def)
    with "1.prems"(4) have pl: "p < length xs" by simp
    have mono: "f (xs ! i) \<le> f (xs ! j)" if "i \<le> j" "j < length xs" for i j
      using sorted_nth_mono [OF "1.prems"(1), of i j] that by simp
    show ?thesis
    proof (cases "lt pivot (xs ! p)")
      case lt: True
      with "1.prems"(2) pl have "f pivot < f (xs ! p)" by simp
      then have up: "\<forall>i. p \<le> i \<and> i < length xs \<longrightarrow> f pivot < f (xs ! i)"
        using mono by (meson less_le_trans)
      have "l \<le> bisect lt pivot xs l p \<and> bisect lt pivot xs l p \<le> p
       \<and> (\<forall>i<bisect lt pivot xs l p. f (xs ! i) \<le> f pivot)
       \<and> (\<forall>i. bisect lt pivot xs l p \<le> i \<and> i < length xs \<longrightarrow> f pivot < f (xs ! i))"
        using "1.IH"(1) [OF True p_def lt "1.prems"(1,2) p(1) _ "1.prems"(5) up] pl by simp
      moreover have "bisect lt pivot xs l r = bisect lt pivot xs l p"
        using True lt by (subst bisect.simps) (simp add: p_def Let_def)
      ultimately show ?thesis using p by auto
    next
      case nlt: False
      with "1.prems"(2) pl have "f (xs ! p) \<le> f pivot" by (simp add: not_less)
      then have low: "\<forall>i<p + 1. f (xs ! i) \<le> f pivot"
        using mono pl by (metis Suc_eq_plus1 less_Suc_eq_le order_trans)
      have "p + 1 \<le> bisect lt pivot xs (p + 1) r \<and> bisect lt pivot xs (p + 1) r \<le> r
       \<and> (\<forall>i<bisect lt pivot xs (p + 1) r. f (xs ! i) \<le> f pivot)
       \<and> (\<forall>i. bisect lt pivot xs (p + 1) r \<le> i \<and> i < length xs \<longrightarrow> f pivot < f (xs ! i))"
        using "1.IH"(2) [OF True p_def nlt "1.prems"(1,2) _ "1.prems"(4) low "1.prems"(6)] p
        by simp
      moreover have "bisect lt pivot xs l r = bisect lt pivot xs (p + 1) r"
        using True nlt by (subst bisect.simps) (simp add: p_def Let_def)
      ultimately show ?thesis using p by auto
    qed
  qed
qed

lemma binary_insert_sorted:
  fixes f :: "'a \<Rightarrow> 'o::linorder"
  assumes "sorted (map f xs)"
    and "\<forall>y\<in>set xs. lt pivot y = (f pivot < f y)"
  shows "sorted (map f (binary_insert lt xs pivot))
       \<and> (\<forall>k. filter (\<lambda>y. f y = k) (binary_insert lt xs pivot)
              = filter (\<lambda>y. f y = k) (xs @ [pivot]))"
proof -
  define j where "j = bisect lt pivot xs 0 (length xs)"
  have "0 \<le> bisect lt pivot xs 0 (length xs) \<and> bisect lt pivot xs 0 (length xs) \<le> length xs
       \<and> (\<forall>i<bisect lt pivot xs 0 (length xs). f (xs ! i) \<le> f pivot)
       \<and> (\<forall>i. bisect lt pivot xs 0 (length xs) \<le> i \<and> i < length xs
              \<longrightarrow> f pivot < f (xs ! i))"
    by (rule bisect_place [where f = f]) (use assms in auto)
  then have j: "j \<le> length xs" "\<And>i. i < j \<Longrightarrow> f (xs ! i) \<le> f pivot"
    "\<And>i. j \<le> i \<Longrightarrow> i < length xs \<Longrightarrow> f pivot < f (xs ! i)"
    unfolding j_def by blast+
  have low: "f y \<le> f pivot" if "y \<in> set (take j xs)" for y
  proof -
    from that obtain i where "i < length (take j xs)" "take j xs ! i = y"
      unfolding in_set_conv_nth by blast
    then have "i < j" "y = xs ! i" by simp_all
    with j(2) show ?thesis by simp
  qed
  have high: "f pivot < f y" if "y \<in> set (drop j xs)" for y
  proof -
    from that obtain i where i: "i < length (drop j xs)" "drop j xs ! i = y"
      unfolding in_set_conv_nth by blast
    then have "j + i < length xs" "y = xs ! (j + i)" using j(1) by simp_all
    with j(3) [of "j + i"] show ?thesis by simp
  qed
  have st: "sorted (map f (take j xs))" "sorted (map f (drop j xs))"
    using assms(1) by (simp_all add: sorted_map sorted_wrt_take sorted_wrt_drop)
  have "sorted (map f (take j xs) @ map f (pivot # drop j xs))"
    unfolding sorted_append
  proof (intro conjI ballI)
    show "sorted (map f (take j xs))" by (rule st)
    show "sorted (map f (pivot # drop j xs))"
      using st(2) high by (auto intro: less_imp_le)
    fix a b assume "a \<in> set (map f (take j xs))" "b \<in> set (map f (pivot # drop j xs))"
    then obtain y z where "a = f y" "y \<in> set (take j xs)" "b = f z"
      "z = pivot \<or> z \<in> set (drop j xs)" by auto
    then show "a \<le> b" using low [of y] high [of z] by auto
  qed
  then have s: "sorted (map f (take j xs @ pivot # drop j xs))" by simp
  have split: "filter (\<lambda>y. f y = k) xs
        = filter (\<lambda>y. f y = k) (take j xs) @ filter (\<lambda>y. f y = k) (drop j xs)" for k
    by (metis append_take_drop_id filter_append)
  have "filter (\<lambda>y. f y = k) (take j xs @ pivot # drop j xs)
              = filter (\<lambda>y. f y = k) (xs @ [pivot])" for k
  proof (cases "f pivot = k")
    case True
    have "filter (\<lambda>y. f y = k) (drop j xs) = []"
      unfolding filter_empty_conv using high True by fastforce
    with True split [of k] show ?thesis by simp
  next
    case False
    with split [of k] show ?thesis by simp
  qed
  with s show ?thesis by (simp add: binary_insert_def Let_def j_def)
qed

lemma binary_insert_set: "set (binary_insert lt xs pivot) = insert pivot (set xs)"
  using binary_insert_mset [of lt xs pivot] by (metis set_mset_add_mset_insert set_mset_mset)

lemma foldl_binary_insert_sorted:
  fixes f :: "'a \<Rightarrow> 'o::linorder"
  assumes "sorted (map f run)"
    and "\<forall>a\<in>set run \<union> set rest. \<forall>b\<in>set run \<union> set rest. lt a b = (f a < f b)"
  shows "sorted (map f (foldl (binary_insert lt) run rest))
       \<and> (\<forall>k. filter (\<lambda>y. f y = k) (foldl (binary_insert lt) run rest)
              = filter (\<lambda>y. f y = k) (run @ rest))"
  using assms
proof (induction rest arbitrary: run)
  case Nil
  then show ?case by simp
next
  case (Cons x rest)
  have b: "sorted (map f (binary_insert lt run x))
       \<and> (\<forall>k. filter (\<lambda>y. f y = k) (binary_insert lt run x)
              = filter (\<lambda>y. f y = k) (run @ [x]))"
    using Cons.prems by (intro binary_insert_sorted) auto
  have "sorted (map f (foldl (binary_insert lt) (binary_insert lt run x) rest))
       \<and> (\<forall>k. filter (\<lambda>y. f y = k) (foldl (binary_insert lt) (binary_insert lt run x) rest)
              = filter (\<lambda>y. f y = k) (binary_insert lt run x @ rest))"
    using b Cons.prems(2) by (intro Cons.IH) (auto simp: binary_insert_set)
  with b show ?case by simp
qed

lemma list_sort_sorted:
  fixes f :: "'a \<Rightarrow> 'o::linorder"
  assumes "\<forall>a\<in>set xs. \<forall>b\<in>set xs. lt a b = (f a < f b)"
  shows "sorted (map f (list_sort lt xs))
       \<and> (\<forall>k. filter (\<lambda>y. f y = k) (list_sort lt xs) = filter (\<lambda>y. f y = k) xs)"
proof -
  obtain run rest where c: "count_run lt xs = (run, rest)" by (cases "count_run lt xs")
  from count_run_sorted [OF c assms]
  obtain pre where pre: "xs = pre @ rest" "sorted (map f run)"
    "\<forall>k. filter (\<lambda>y. f y = k) run = filter (\<lambda>y. f y = k) pre"
    by blast
  from count_run_mset [OF c] have "set run \<union> set rest = set xs"
    by (metis set_mset_mset set_mset_union)
  with assms
  have "\<forall>a\<in>set run \<union> set rest. \<forall>b\<in>set run \<union> set rest. lt a b = (f a < f b)"
    by simp
  from foldl_binary_insert_sorted [OF pre(2) this] pre(1,3) c
  show ?thesis by (simp add: list_sort_def)
qed

section \<open>Properties of sorted with a key\<close>

lemma key_list_total:
  "\<forall>x\<in>set xs. key x = Inr (f x) \<Longrightarrow> key_list key xs = Inr (map f xs)"
  by (induction xs) auto

lemma key_list_raises:
  "x \<in> set xs \<Longrightarrow> isl (key x) \<Longrightarrow> isl (key_list key xs)"
  by (induction xs) (auto split: sum.splits)

lemma zip_map_self: "zip (map f xs) xs = map (\<lambda>x. (f x, x)) xs"
  by (induction xs) auto

lemma sorted_reverse_total:
  assumes "\<forall>x\<in>set xs. key x = Inr (f x)"
  shows "sorted_reverse key xs = Inr (sort_desc f xs)"
  by (simp add: sorted_reverse_def sort_desc_def key_list_total [OF assms] zip_map_self)

lemma sort_desc_mset: "mset (sort_desc f xs) = mset xs"
proof -
  have "mset (sort_desc f xs) = image_mset snd (mset (map (\<lambda>x. (f x, x)) xs))"
    by (simp add: sort_desc_def list_sort_mset)
  also have "\<dots> = mset xs"
    by (simp add: multiset.map_comp comp_def)
  finally show ?thesis .
qed

lemma ord_key_inj: "ord_key a = ord_key b \<longleftrightarrow> a = b"
  by (cases a; cases b) auto

lemma fless_ord_key: "a \<noteq> NaN \<Longrightarrow> b \<noteq> NaN \<Longrightarrow> fless a b = (ord_key a < ord_key b)"
  by (cases a; cases b) (auto simp: less_prod_def)

lemma fle_ord_key: "a \<noteq> NaN \<Longrightarrow> b \<noteq> NaN \<Longrightarrow> fle a b = (ord_key a \<le> ord_key b)"
  by (cases a; cases b) (auto simp: fle_def less_eq_prod_def)

lemma sort_desc_ordered:
  assumes "\<forall>x\<in>set xs. f x \<noteq> NaN"
  shows "sorted_wrt (\<lambda>a b. fle (f b) (f a)) (sort_desc f xs)
       \<and> (\<forall>k. filter (\<lambda>y. f y = k) (sort_desc f xs) = filter (\<lambda>y. f y = k) xs)"
proof -
  define dec where "dec = map (\<lambda>x. (f x, x)) xs"
  define ys where "ys = list_sort key_less (rev dec)"
  define g where "g = (\<lambda>y :: pyfloat \<times> 'a. ord_key (fst y))"
  have dec_el: "fst y = f (snd y) \<and> snd y \<in> set xs" if "y \<in> set dec" for y
    using that by (auto simp: dec_def)
  have "\<forall>a\<in>set (rev dec). \<forall>b\<in>set (rev dec). key_less a b = (g a < g b)"
    using dec_el assms by (auto simp: key_less_def g_def fless_ord_key)
  from list_sort_sorted [OF this]
  have srt: "sorted (map g ys)"
    and stab: "\<And>c. filter (\<lambda>y. g y = c) ys = filter (\<lambda>y. g y = c) (rev dec)"
    unfolding ys_def by blast+
  have "mset ys = mset dec" by (simp add: ys_def list_sort_mset)
  then have set_ys: "set ys = set dec" by (metis set_mset_mset)
  have ys_el: "fst y = f (snd y) \<and> snd y \<in> set xs" if "y \<in> set ys" for y
    using that dec_el set_ys by blast
  have r: "sort_desc f xs = rev (map snd ys)"
    by (simp add: sort_desc_def ys_def dec_def rev_map)
  have "sorted (map (\<lambda>x. ord_key (f x)) (map snd ys))"
  proof -
    have eq: "map (\<lambda>x. ord_key (f x)) (map snd ys) = map g ys"
      using ys_el by (auto simp: g_def)
    show ?thesis unfolding eq by (rule srt)
  qed
  then have "sorted_wrt (\<lambda>a b. ord_key (f a) \<le> ord_key (f b)) (map snd ys)"
    unfolding sorted_map .
  then have "sorted_wrt (\<lambda>a b. fle (f a) (f b)) (map snd ys)"
  proof (rule sorted_wrt_mono_rel [rotated])
    fix a b assume "a \<in> set (map snd ys)" "b \<in> set (map snd ys)"
      "ord_key (f a) \<le> ord_key (f b)"
    moreover from this ys_el assms have "f a \<noteq> NaN" "f b \<noteq> NaN" by auto
    ultimately show "fle (f a) (f b)" by (simp add: fle_ord_key)
  qed
  then have ord: "sorted_wrt (\<lambda>a b. fle (f b) (f a)) (sort_desc f xs)"
    unfolding r sorted_wrt_rev .
  have "filter (\<lambda>y. f y = k) (sort_desc f xs) = filter (\<lambda>y. f y = k) xs" for k
  proof -
    have "filter (\<lambda>y. f y = k) (map snd ys) = map snd (filter (\<lambda>y. f (snd y) = k) ys)"
      by (simp add: filter_map comp_def)
    also have "filter (\<lambda>y. f (snd y) = k) ys = filter (\<lambda>y. g y = ord_key k) ys"
      using ys_el by (intro filter_cong) (auto simp: g_def ord_key_inj)
    also have "\<dots> = filter (\<lambda>y. g y = ord_key k) (rev dec)" by (rule stab)
    also have "\<dots> = filter (\<lambda>y. f (snd y) = k) (rev dec)"
      using dec_el by (intro filter_cong) (auto simp: g_def ord_key_inj)
    also have "map snd \<dots> = filter (\<lambda>y. f y = k) (map snd (rev dec))"
      by (simp add: filter_map comp_def)
    also have "map snd (rev dec) = rev xs"
      by (simp add: dec_def rev_map comp_def)
    finally have "filter (\<lambda>y. f y = k) (map snd ys) = filter (\<lambda>y. f y = k) (rev xs)" .
    then have "rev (filter (\<lambda>y. f y = k) (map snd ys)) = rev (filter (\<lambda>y. f y = k) (rev xs))"
      by simp
    then show ?thesis unfolding r by (simp add: rev_filter)
  qed
  with ord show ?thesis by blast
qed

section \<open>Properties of the handlers\<close>

subsection \<open>Replies that need no ranking\<close>

text \<open>
  C7. When the fetched object has no \<^verbatim>\<open>pairs\<close> field, or the field is null or an
  empty array, \<^verbatim>\<open>handle_volume\<close> and \<^verbatim>\<open>handle_ratio\<close> both reply with the
  literal text \<^verbatim>\<open>No pairs found in DexScreener response.\<close> after their single
  fetch: no exception leaves the handler and nothing else is sent.
\<close>

theorem no_pairs_reply:
  assumes "fetch addr = Inr (JObj kvs)"
    and "map_of kvs ''pairs'' = None \<or> map_of kvs ''pairs'' = Some JNull
         \<or> map_of kvs ''pairs'' = Some (JArr [])"
  shows "handle_volume fl fetch addr show_summary
           = \<lparr> fetched = [addr], outcome = Reply ''No pairs found in DexScreener response.'' \<rparr>
       \<and> handle_ratio fl fetch addr
           = \<lparr> fetched = [addr], outcome = Reply ''No pairs found in DexScreener response.'' \<rparr>"
  using assms
  by (auto simp: handle_volume_def handle_ratio_def volume_report_def ratio_report_def py_or_def)

theorem no_pairs_reply_witness:
  "handle_volume demo (\<lambda>a. Inr (JObj [(''pairs'', JArr [])])) ''abc'' True
     = \<lparr> fetched = [''abc''], outcome = Reply ''No pairs found in DexScreener response.'' \<rparr>
   \<and> handle_ratio demo (\<lambda>a. Inr (JObj [(''pairs'', JArr [])])) ''abc''
     = \<lparr> fetched = [''abc''], outcome = Reply ''No pairs found in DexScreener response.'' \<rparr>"
  using no_pairs_reply [of "\<lambda>a. Inr (JObj [(''pairs'', JArr [])])" "''abc''"
      "[(''pairs'', JArr [])]" demo True]
  by simp

text \<open>
  C8. With an empty argument list, \<^verbatim>\<open>volume_other\<close> and \<^verbatim>\<open>ratio_other\<close> reply
  with their usage message and fetch nothing.
\<close>

theorem missing_argument_usage:
  "volume_other fl fetch []
     = \<lparr> fetched = [], outcome = Reply ''Usage: /volume_other <TOKEN_CA>'' \<rparr>
   \<and> ratio_other fl fetch []
     = \<lparr> fetched = [], outcome = Reply ''Usage: /ratio_other <TOKEN_CA>'' \<rparr>"
  by (simp add: volume_other_def ratio_other_def)

subsection \<open>The liquidity filter of handle_volume\<close>

lemma filtered_pairs_filter:
  "filtered_pairs fl ps = filter (\<lambda>p. \<exists>v. liquidity_usd fl p = Inr v \<and> fless (Fin 0) v) ps"
  by (induction ps) (auto split: sum.splits)

lemma liquidity_usd_absent:
  "map_of kvs ''liquidity'' = None \<Longrightarrow> liquidity_usd fl (JObj kvs) = Inr (Fin 0)"
  by (simp add: liquidity_usd_def ebind_def py_or_def)

lemma liquidity_usd_field:
  "map_of kvs ''liquidity'' = Some (JObj l) \<Longrightarrow>
   liquidity_usd fl (JObj kvs) =
     py_float fl (py_or (case map_of l ''usd'' of None \<Rightarrow> JNull | Some u \<Rightarrow> u) (JInt 0))"
  by (simp add: liquidity_usd_def ebind_def)

text \<open>
  C3. The filter of \<^verbatim>\<open>handle_volume\<close> keeps, in order, exactly the pairs whose
  liquidity in USD converts to a number greater than 0. A pair without a
  \<^verbatim>\<open>liquidity\<close> object, or whose \<^verbatim>\<open>usd\<close> field is missing, null or a string that
  \<^verbatim>\<open>float\<close> rejects, is not kept. When the pairs list is not empty and no pair is
  kept, the handler replies \<^verbatim>\<open>No valid LP pairs with liquidity found.\<close> and does
  nothing more.
\<close>

theorem volume_filter_liquidity:
  "filtered_pairs fl ps
     = filter (\<lambda>p. \<exists>v. liquidity_usd fl p = Inr v \<and> fless (Fin 0) v) ps
   \<and> (map_of kvs ''liquidity'' = None \<longrightarrow> JObj kvs \<notin> set (filtered_pairs fl ps))
   \<and> (map_of kvs ''liquidity'' = Some (JObj l)
        \<and> (map_of l ''usd'' = None \<or> map_of l ''usd'' = Some JNull
            \<or> (\<exists>s. map_of l ''usd'' = Some (JStr s) \<and> of_str fl s = None))
       \<longrightarrow> JObj kvs \<notin> set (filtered_pairs fl ps))
   \<and> (fetch addr = Inr (JObj obj) \<and> map_of obj ''pairs'' = Some (JArr ps) \<and> ps \<noteq> []
        \<and> filtered_pairs fl ps = []
       \<longrightarrow> handle_volume fl fetch addr show_summary
             = \<lparr> fetched = [addr], outcome = Reply ''No valid LP pairs with liquidity found.'' \<rparr>)"
proof (intro conjI impI)
  show "filtered_pairs fl ps
     = filter (\<lambda>p. \<exists>v. liquidity_usd fl p = Inr v \<and> fless (Fin 0) v) ps"
    by (rule filtered_pairs_filter)
next
  assume "map_of kvs ''liquidity'' = None"
  then show "JObj kvs \<notin> set (filtered_pairs fl ps)"
    by (simp add: filtered_pairs_filter liquidity_usd_absent)
next
  assume "map_of kvs ''liquidity'' = Some (JObj l)
        \<and> (map_of l ''usd'' = None \<or> map_of l ''usd'' = Some JNull
            \<or> (\<exists>s. map_of l ''usd'' = Some (JStr s) \<and> of_str fl s = None))"
  then show "JObj kvs \<notin> set (filtered_pairs fl ps)"
    by (auto simp: filtered_pairs_filter liquidity_usd_field py_or_def)
next
  assume "fetch addr = Inr (JObj obj) \<and> map_of obj ''pairs'' = Some (JArr ps) \<and> ps \<noteq> []
        \<and> filtered_pairs fl ps = []"
  then show "handle_volume fl fetch addr show_summary
             = \<lparr> fetched = [addr], outcome = Reply ''No valid LP pairs with liquidity found.'' \<rparr>"
    by (simp add: handle_volume_def volume_report_def py_or_def)
qed

theorem volume_filter_liquidity_witness:
  "filtered_pairs demo
     [JObj [(''dexId'', JStr ''orca'')],
      JObj [(''liquidity'', JObj [(''usd'', JNull)])],
      JObj [(''liquidity'', JObj [(''usd'', JStr ''n/a'')])]] = []
   \<and> handle_volume demo
       (\<lambda>a. Inr (JObj [(''pairs'', JArr
          [JObj [(''dexId'', JStr ''orca'')],
           JObj [(''liquidity'', JObj [(''usd'', JNull)])],
           JObj [(''liquidity'', JObj [(''usd'', JStr ''n/a'')])]])])) ''abc'' False
      = \<lparr> fetched = [''abc''], outcome = Reply ''No valid LP pairs with liquidity found.'' \<rparr>"
proof -
  let ?ps = "[JObj [(''dexId'', JStr ''orca'')],
      JObj [(''liquidity'', JObj [(''usd'', JNull)])],
      JObj [(''liquidity'', JObj [(''usd'', JStr ''n/a'')])]]"
  have e: "filtered_pairs demo ?ps = []"
    by (simp add: liquidity_usd_def ebind_def py_or_def demo_def)
  show ?thesis
    using e volume_filter_liquidity [of demo ?ps "[(''dexId'', JStr ''orca'')]" "[]"
      "\<lambda>a. Inr (JObj [(''pairs'', JArr ?ps)])" "''abc''" "[(''pairs'', JArr ?ps)]" False]
    by simp
qed

subsection \<open>The two rendering loops\<close>

lemma max_double_ge: "2 ^ 53 \<le> max_double"
proof -
  have "(2 :: rat) ^ 53 * 1 \<le> 2 ^ 971 * (2 ^ 53 - 1)"
    by (intro mult_mono power_increasing) simp_all
  then show ?thesis by (simp add: max_double_def mult.commute)
qed

lemma to_double_small: "\<bar>rnd fl x\<bar> \<le> 2 ^ 53 \<Longrightarrow> to_double fl x = Fin (rnd fl x)"
  using max_double_ge by (auto simp: to_double_def Let_def)

lemma to_double_demo: "\<bar>x\<bar> \<le> 2 ^ 53 \<Longrightarrow> to_double demo x = Fin x"
  using to_double_small [of demo x] by (simp add: demo_def)

lemmas ex_defs = drip_sol_def drip_usdc_def liquidity_usd_def volume_h24_def pair_labels_def
  token_symbol_def dex_id_def ebind_def py_or_def

lemma volume_loop_result:
  assumes "\<forall>p\<in>set ps. \<not> isl (liquidity_usd fl p) \<and> \<not> isl (pair_labels p)"
  shows "volume_loop fl show_summary i ps st =
     Inr \<lparr> lines = lines st @ map (\<lambda>(j, p). volume_block fl j p) (enumerate i ps),
           total_volume = foldl (fadd fl) (total_volume st) (map (vol24h fl) ps),
           sol_ray_vol =
             (if show_summary
              then foldl (fadd fl) (sol_ray_vol st) (map (vol24h fl) (filter sol_ray_pair ps))
              else sol_ray_vol st) \<rparr>"
  using assms
proof (induction ps arbitrary: i st)
  case Nil
  then show ?case by simp
next
  case (Cons p ps)
  from Cons.prems obtain l lab
    where l: "liquidity_usd fl p = Inr l" and lab: "pair_labels p = Inr lab"
    by (cases "liquidity_usd fl p"; cases "pair_labels p") auto
  obtain b q d where lab': "lab = (b, q, d)" by (cases lab)
  from Cons.prems
  have rest: "\<forall>p\<in>set ps. \<not> isl (liquidity_usd fl p) \<and> \<not> isl (pair_labels p)"
    by simp
  show ?case
    by (simp add: l lab lab' Cons.IH [OF rest] Let_def volume_block_def sol_ray_pair_def
        vol24h_def)
qed

lemma ratio_loop_result:
  assumes "\<forall>x\<in>set rs. \<not> isl (pair_labels (snd (snd (snd x))))"
  shows "ratio_loop fl i rs ls = Inr (ls @ map (\<lambda>(j, x). ratio_block fl j x) (enumerate i rs))"
  using assms
proof (induction rs arbitrary: i ls)
  case Nil
  then show ?case by simp
next
  case (Cons x rs)
  obtain r l v p where x: "x = (r, l, v, p)" by (cases x)
  from Cons.prems x obtain b q d where lab: "pair_labels p = Inr (b, q, d)"
    by (cases "pair_labels p") auto
  from Cons.prems have rest: "\<forall>x\<in>set rs. \<not> isl (pair_labels (snd (snd (snd x))))"
    by simp
  show ?case
    by (simp add: x lab Cons.IH [OF rest] ratio_block_def)
qed

lemma render_volume_result:
  assumes "\<forall>p\<in>set ps. \<not> isl (liquidity_usd fl p) \<and> \<not> isl (pair_labels p)"
  shows "render_volume fl show_summary ps =
     Inr \<lparr> lines = volume_header (length ps) # map (\<lambda>(j, p). volume_block fl j p) (enumerate 0 ps),
           total_volume = fsum fl (map (vol24h fl) ps),
           sol_ray_vol =
             (if show_summary then fsum fl (map (vol24h fl) (filter sol_ray_pair ps))
              else Fin 0) \<rparr>"
  by (simp add: render_volume_def volume_loop_result [OF assms] fsum_def)

lemma render_ratio_result:
  assumes "\<forall>x\<in>set rs. \<not> isl (pair_labels (snd (snd (snd x))))"
  shows "render_ratio fl rs
           = Inr (ratio_header (length rs) # map (\<lambda>(j, x). ratio_block fl j x) (enumerate 0 rs))"
  by (simp add: render_ratio_def ratio_loop_result [OF assms])

lemma pairs_sorted_total:
  assumes "\<forall>p\<in>set fp. \<not> isl (volume_h24 fl p)"
  shows "pairs_sorted fl fp = Inr (sort_desc (vol24h fl) fp)"
proof -
  have "\<forall>p\<in>set fp. volume_h24 fl p = Inr (vol24h fl p)"
    using assms by (auto simp: vol24h_def split: sum.splits)
  then show ?thesis
    unfolding pairs_sorted_def by (rule sorted_reverse_total)
qed

lemma sort_desc_set: "set (sort_desc f xs) = set xs"
  using sort_desc_mset [of f xs] by (metis set_mset_mset)




lemma ex_vals: "sol_ray_pair drip_sol" "\<not> sol_ray_pair drip_usdc"
  "vol24h demo drip_sol = Fin 5000" "vol24h demo drip_usdc = Fin 8000"
  by code_simp+

lemma example_well_formed:
  "\<forall>p\<in>set [drip_usdc, drip_sol]. \<not> isl (liquidity_usd demo p) \<and> \<not> isl (pair_labels p)"
  by (simp add: ex_defs)

subsection \<open>Rendering of the filtered pairs\<close>



subsection \<open>The summary of handle_volume\<close>

lemma is_sol_ray_iff:
  "is_sol_ray base quote dex \<longleftrightarrow>
     ((upper base = ''SOL'' \<and> upper quote = ''DRIP'') \<or> (upper base = ''DRIP'' \<and> upper quote = ''SOL''))
     \<and> lower (strip dex) = ''raydium''"
  by (auto simp: is_sol_ray_def doubleton_eq_iff)

text \<open>
  C5. With \<^verbatim>\<open>show_summary\<close> true, the subtotal \<^verbatim>\<open>sol_ray_vol\<close> is the sum of the
  24-hour volume over exactly the rendered pairs whose upper-cased symbols are the set
  of \<^verbatim>\<open>SOL\<close> and \<^verbatim>\<open>DRIP\<close> and whose lower-cased exchange id is
  \<^verbatim>\<open>raydium\<close>; the summary shows it, and shows the total rendered volume minus it as
  "All others combined". The sums are those that the loop's float additions make.
\<close>

theorem summary_subtotal:
  assumes "\<forall>p\<in>set sorted_ps. \<not> isl (liquidity_usd fl p) \<and> \<not> isl (pair_labels p)"
  shows "(\<exists>st. render_volume fl True sorted_ps = Inr st
       \<and> sol_ray_vol st = fsum fl (map (vol24h fl) (filter sol_ray_pair sorted_ps))
       \<and> total_volume st = fsum fl (map (vol24h fl) sorted_ps)
       \<and> summary_lines fl st =
           [bar_chart @ '' Summary (24H Volume):'',
            ''- SOL/DRIP (raydium): *'' @ format_usd fl (JNum (sol_ray_vol st)) @ ''*'',
            ''- All others combined: *''
              @ format_usd fl (JNum (fsub fl (total_volume st) (sol_ray_vol st))) @ ''*''])
     \<and> (\<forall>p. sol_ray_pair p \<longleftrightarrow>
          (\<exists>base quote dex. pair_labels p = Inr (base, quote, dex)
             \<and> ((upper base = ''SOL'' \<and> upper quote = ''DRIP'')
                 \<or> (upper base = ''DRIP'' \<and> upper quote = ''SOL''))
             \<and> lower (strip dex) = ''raydium''))"
proof
  show "\<exists>st. render_volume fl True sorted_ps = Inr st
       \<and> sol_ray_vol st = fsum fl (map (vol24h fl) (filter sol_ray_pair sorted_ps))
       \<and> total_volume st = fsum fl (map (vol24h fl) sorted_ps)
       \<and> summary_lines fl st =
           [bar_chart @ '' Summary (24H Volume):'',
            ''- SOL/DRIP (raydium): *'' @ format_usd fl (JNum (sol_ray_vol st)) @ ''*'',
            ''- All others combined: *''
              @ format_usd fl (JNum (fsub fl (total_volume st) (sol_ray_vol st))) @ ''*'']"
    by (simp add: render_volume_result [OF assms] summary_lines_def)
  show "\<forall>p. sol_ray_pair p \<longleftrightarrow>
          (\<exists>base quote dex. pair_labels p = Inr (base, quote, dex)
             \<and> ((upper base = ''SOL'' \<and> upper quote = ''DRIP'')
                 \<or> (upper base = ''DRIP'' \<and> upper quote = ''SOL''))
             \<and> lower (strip dex) = ''raydium'')"
    by (auto simp: sol_ray_pair_def is_sol_ray_iff split: sum.splits)
qed

theorem summary_subtotal_witness:
  "\<exists>st. render_volume demo True [drip_usdc, drip_sol] = Inr st
      \<and> sol_ray_vol st = Fin 5000 \<and> fsub demo (total_volume st) (sol_ray_vol st) = Fin 8000"
proof -
  from summary_subtotal [OF example_well_formed]
  obtain st where "render_volume demo True [drip_usdc, drip_sol] = Inr st"
    and "sol_ray_vol st = fsum demo (map (vol24h demo) (filter sol_ray_pair [drip_usdc, drip_sol]))"
    and "total_volume st = fsum demo (map (vol24h demo) [drip_usdc, drip_sol])"
    by blast
  then show ?thesis by (simp add: ex_vals fsum_def fsub_def to_double_demo)
qed

subsection \<open>Rank icons\<close>

lemma volume_block_icon:
  "\<not> isl (liquidity_usd fl p) \<Longrightarrow> \<not> isl (pair_labels p)
   \<Longrightarrow> \<exists>rest. volume_block fl i p = icon i @ '' '' @ rest"
  by (cases "liquidity_usd fl p"; cases "pair_labels p")
     (auto simp: volume_block_def volume_line_def)

lemma ratio_block_icon:
  "\<not> isl (pair_labels (snd (snd (snd x)))) \<Longrightarrow> \<exists>rest. ratio_block fl i x = icon i @ '' '' @ rest"
  by (cases x; cases "pair_labels (snd (snd (snd x)))")
     (auto simp: ratio_block_def ratio_line_def)

text \<open>
  C6. In both reports the icon of a block is decided by its index in the sorted list
  alone: index 0 has the gold medal, 1 the silver, 2 the bronze, and every index from 3
  on the money bag, whatever the list holds.
\<close>

theorem icon_by_position:
  "icon 0 = first_place \<and> icon 1 = second_place \<and> icon 2 = third_place
   \<and> (\<forall>i\<ge>3. icon i = money_bag)
   \<and> ((\<forall>p\<in>set sorted_ps. \<not> isl (liquidity_usd fl p) \<and> \<not> isl (pair_labels p)) \<longrightarrow>
        (\<exists>st. render_volume fl show_summary sorted_ps = Inr st
           \<and> (\<forall>i<length sorted_ps. \<exists>rest. lines st ! Suc i = icon i @ '' '' @ rest)))
   \<and> ((\<forall>x\<in>set sorted_rs. \<not> isl (pair_labels (snd (snd (snd x))))) \<longrightarrow>
        (\<exists>ls. render_ratio fl sorted_rs = Inr ls
           \<and> (\<forall>i<length sorted_rs. \<exists>rest. ls ! Suc i = icon i @ '' '' @ rest)))"
proof (intro conjI impI)
  show "icon 0 = first_place" "icon 1 = second_place" "icon 2 = third_place"
    "\<forall>i\<ge>3. icon i = money_bag"
    by (simp_all add: icon_def)
next
  assume wf: "\<forall>p\<in>set sorted_ps. \<not> isl (liquidity_usd fl p) \<and> \<not> isl (pair_labels p)"
  have "\<exists>rest. volume_block fl i (sorted_ps ! i) = icon i @ '' '' @ rest"
    if "i < length sorted_ps" for i
    using wf that by (intro volume_block_icon) auto
  then show "\<exists>st. render_volume fl show_summary sorted_ps = Inr st
           \<and> (\<forall>i<length sorted_ps. \<exists>rest. lines st ! Suc i = icon i @ '' '' @ rest)"
    by (simp add: render_volume_result [OF wf] nth_enumerate_eq)
next
  assume wf: "\<forall>x\<in>set sorted_rs. \<not> isl (pair_labels (snd (snd (snd x))))"
  have "\<exists>rest. ratio_block fl i (sorted_rs ! i) = icon i @ '' '' @ rest"
    if "i < length sorted_rs" for i
    using wf that by (intro ratio_block_icon) auto
  then show "\<exists>ls. render_ratio fl sorted_rs = Inr ls
           \<and> (\<forall>i<length sorted_rs. \<exists>rest. ls ! Suc i = icon i @ '' '' @ rest)"
    by (simp add: render_ratio_result [OF wf] nth_enumerate_eq)
qed

theorem icon_by_position_witness:
  "(\<exists>st. render_volume demo True [drip_usdc, drip_sol] = Inr st
      \<and> (\<exists>rest. lines st ! 1 = first_place @ '' '' @ rest)
      \<and> (\<exists>rest. lines st ! 2 = second_place @ '' '' @ rest))
   \<and> (\<exists>ls. render_ratio demo
               [(Fin 4, Fin 2000, Fin 8000, drip_usdc), (Fin (1 / 2), Fin 10000, Fin 5000, drip_sol)]
               = Inr ls
      \<and> (\<exists>rest. ls ! 1 = first_place @ '' '' @ rest)
      \<and> (\<exists>rest. ls ! 2 = second_place @ '' '' @ rest))"
proof -
  let ?rs = "[(Fin 4, Fin 2000, Fin 8000, drip_usdc), (Fin (1 / 2), Fin 10000, Fin 5000, drip_sol)]"
  have r: "\<forall>x\<in>set ?rs. \<not> isl (pair_labels (snd (snd (snd x))))"
    by (simp add: drip_sol_def drip_usdc_def pair_labels_def token_symbol_def dex_id_def
        ebind_def py_or_def)
  note t = icon_by_position [where sorted_ps = "[drip_usdc, drip_sol]" and fl = demo
        and sorted_rs = ?rs and show_summary = True]
  from t example_well_formed
  obtain st where st: "render_volume demo True [drip_usdc, drip_sol] = Inr st"
    and sti: "\<forall>i<length [drip_usdc, drip_sol]. \<exists>rest. lines st ! Suc i = icon i @ '' '' @ rest"
    by blast
  from t r
  obtain ls where ls: "render_ratio demo ?rs = Inr ls"
    and lsi: "\<forall>i<length ?rs. \<exists>rest. ls ! Suc i = icon i @ '' '' @ rest"
    by blast
  from sti have "\<exists>rest. lines st ! Suc 0 = icon 0 @ '' '' @ rest"
    "\<exists>rest. lines st ! Suc 1 = icon 1 @ '' '' @ rest" by simp_all
  moreover from lsi have "\<exists>rest. ls ! Suc 0 = icon 0 @ '' '' @ rest"
    "\<exists>rest. ls ! Suc 1 = icon 1 @ '' '' @ rest" by simp_all
  ultimately show ?thesis using st ls by (simp add: icon_def numeral_2_eq_2)
qed

subsection \<open>The ranking of handle_ratio\<close>

lemma fdiv_positive: "fless (Fin 0) l \<Longrightarrow> fdiv fl v l = Inr (projr (fdiv fl v l))"
  by (cases l; cases v) auto

lemma fdiv_nan:
  "fless (Fin 0) l \<Longrightarrow> fless (Fin 0) v \<Longrightarrow> fdiv fl v l = Inr NaN \<longleftrightarrow> l = PInf \<and> v = PInf"
  by (cases l; cases v) (auto simp: to_double_def Let_def)

lemma ratios_filter:
  "ratios fl ps = Inr (map (ratio_entry fl) (filter (ratio_eligible fl) ps))"
proof (induction ps)
  case Nil
  then show ?case by simp
next
  case (Cons p ps)
  show ?case
  proof (cases "ratio_eligible fl p")
    case False
    then show ?thesis
      using Cons.IH by (auto simp: ratio_eligible_def ebind_def split: sum.splits)
  next
    case True
    then obtain l v where lv: "liquidity_usd fl p = Inr l" "volume_h24 fl p = Inr v"
      "fless (Fin 0) l" "fless (Fin 0) v"
      by (auto simp: ratio_eligible_def split: sum.splits)
    from fdiv_positive [OF lv(3), of fl v]
    obtain q where q: "fdiv fl v l = Inr q" by blast
    have e: "ratio_entry fl p = (q, l, v, p)"
      by (simp add: ratio_entry_def lv q)
    have "ratios fl (p # ps)
            = Inr ((q, l, v, p) # map (ratio_entry fl) (filter (ratio_eligible fl) ps))"
      by (simp add: lv q ebind_def Cons.IH)
    with True e show ?thesis by simp
  qed
qed

lemma ratio_eligible_iff:
  "ratio_eligible fl p \<longleftrightarrow>
     (\<exists>l v. liquidity_usd fl p = Inr l \<and> volume_h24 fl p = Inr v
        \<and> fless (Fin 0) l \<and> fless (Fin 0) v)"
  by (auto simp: ratio_eligible_def split: sum.splits)

lemma ratios_sorted_total:
  "ratios_sorted rs = Inr (sort_desc fst rs)"
  for rs :: "ratio_row list"
  unfolding ratios_sorted_def by (rule sorted_reverse_total) simp

lemma ratio_entry_nan:
  assumes "ratio_eligible fl p"
  shows "fst (ratio_entry fl p) = NaN
     \<longleftrightarrow> liquidity_usd fl p = Inr PInf \<and> volume_h24 fl p = Inr PInf"
proof -
  from assms obtain l v where lv: "liquidity_usd fl p = Inr l" "volume_h24 fl p = Inr v"
    "fless (Fin 0) l" "fless (Fin 0) v"
    by (auto simp: ratio_eligible_iff)
  from fdiv_positive [OF lv(3), of fl v] fdiv_nan [OF lv(3,4), of fl]
  show ?thesis by (auto simp: ratio_entry_def Let_def lv)
qed

lemma example_ratios:
  "ratios demo [drip_sol, JNull, drip_usdc]
     = Inr [(Fin (1 / 2), Fin 10000, Fin 5000, drip_sol), (Fin 4, Fin 2000, Fin 8000, drip_usdc)]"
  by (simp add: ex_defs to_double_demo)

lemma example_ratios_sorted:
  "ratios_sorted [(Fin (1 / 2), Fin 10000, Fin 5000, drip_sol), (Fin 4, Fin 2000, Fin 8000, drip_usdc)]
     = Inr [(Fin 4, Fin 2000, Fin 8000, drip_usdc), (Fin (1 / 2), Fin 10000, Fin 5000, drip_sol)]"
  by (simp add: ratios_sorted_def sorted_reverse_def list_sort_def key_less_def)

text \<open>
  C2. \<^verbatim>\<open>handle_ratio\<close> ranks a pair exactly when its liquidity and its 24-hour
  volume both convert and are both greater than 0; the entry of such a pair holds volume
  divided by liquidity, and the division never raises. The sorted ranking is a
  permutation of the entries, and the report has one block per entry in its order. The
  ratio of an entry is NaN exactly when liquidity and volume are both infinite. When no
  entry has the ratio NaN, the ranking is in non-increasing order of ratio, and entries
  of equal ratio keep their input order.
\<close>

theorem ratio_ranking:
  "ratios fl ps = Inr (map (ratio_entry fl) (filter (ratio_eligible fl) ps))
   \<and> (ratio_eligible fl p \<longleftrightarrow>
        (\<exists>l v. liquidity_usd fl p = Inr l \<and> volume_h24 fl p = Inr v
           \<and> fless (Fin 0) l \<and> fless (Fin 0) v))
   \<and> (liquidity_usd fl p = Inr l \<and> volume_h24 fl p = Inr v \<and> fdiv fl v l = Inr q
        \<longrightarrow> ratio_entry fl p = (q, l, v, p))
   \<and> (ratio_eligible fl p \<longrightarrow>
        (fst (ratio_entry fl p) = NaN
           \<longleftrightarrow> liquidity_usd fl p = Inr PInf \<and> volume_h24 fl p = Inr PInf))
   \<and> (\<forall>rs. ratios fl ps = Inr rs \<longrightarrow>
        (\<exists>sorted_rs.
           ratios_sorted rs = Inr sorted_rs
         \<and> mset sorted_rs = mset rs
         \<and> ((\<forall>x\<in>set rs. fst x \<noteq> NaN) \<longrightarrow>
              non_increasing (map fst sorted_rs)
              \<and> (\<forall>k. filter (\<lambda>x. fst x = k) sorted_rs = filter (\<lambda>x. fst x = k) rs))
         \<and> ((\<forall>x\<in>set sorted_rs. \<not> isl (pair_labels (snd (snd (snd x))))) \<longrightarrow>
              render_ratio fl sorted_rs
                = Inr (ratio_header (length sorted_rs)
                       # map (\<lambda>(i, x). ratio_block fl i x) (enumerate 0 sorted_rs)))))"
proof (intro conjI allI impI)
  show "ratios fl ps = Inr (map (ratio_entry fl) (filter (ratio_eligible fl) ps))"
    by (rule ratios_filter)
  show "ratio_eligible fl p \<longleftrightarrow>
        (\<exists>l v. liquidity_usd fl p = Inr l \<and> volume_h24 fl p = Inr v
           \<and> fless (Fin 0) l \<and> fless (Fin 0) v)"
    by (rule ratio_eligible_iff)
  show "ratio_entry fl p = (q, l, v, p)"
    if "liquidity_usd fl p = Inr l \<and> volume_h24 fl p = Inr v \<and> fdiv fl v l = Inr q"
    using that by (simp add: ratio_entry_def)
  show "fst (ratio_entry fl p) = NaN
           \<longleftrightarrow> liquidity_usd fl p = Inr PInf \<and> volume_h24 fl p = Inr PInf"
    if "ratio_eligible fl p"
    using that by (rule ratio_entry_nan)
next
  fix rs :: "ratio_row list"
  let ?s = "sort_desc fst rs"
  have "ratios_sorted rs = Inr ?s" by (rule ratios_sorted_total)
  moreover have "mset ?s = mset rs" by (rule sort_desc_mset)
  moreover have "(\<forall>x\<in>set rs. fst x \<noteq> NaN) \<longrightarrow>
              non_increasing (map fst ?s)
              \<and> (\<forall>k. filter (\<lambda>x. fst x = k) ?s = filter (\<lambda>x. fst x = k) rs)"
    using sort_desc_ordered [of rs fst]
    by (simp add: non_increasing_def sorted_wrt_map)
  moreover have "(\<forall>x\<in>set ?s. \<not> isl (pair_labels (snd (snd (snd x))))) \<longrightarrow>
            render_ratio fl ?s
              = Inr (ratio_header (length ?s) # map (\<lambda>(i, x). ratio_block fl i x) (enumerate 0 ?s))"
    using render_ratio_result [of ?s fl] by blast
  ultimately show "\<exists>sorted_rs.
           ratios_sorted rs = Inr sorted_rs
         \<and> mset sorted_rs = mset rs
         \<and> ((\<forall>x\<in>set rs. fst x \<noteq> NaN) \<longrightarrow>
              non_increasing (map fst sorted_rs)
              \<and> (\<forall>k. filter (\<lambda>x. fst x = k) sorted_rs = filter (\<lambda>x. fst x = k) rs))
         \<and> ((\<forall>x\<in>set sorted_rs. \<not> isl (pair_labels (snd (snd (snd x))))) \<longrightarrow>
              render_ratio fl sorted_rs
                = Inr (ratio_header (length sorted_rs)
                       # map (\<lambda>(i, x). ratio_block fl i x) (enumerate 0 sorted_rs)))"
    by blast
qed

theorem ratio_ranking_witness:
  "ratios demo [drip_sol, JNull, drip_usdc]
     = Inr [(Fin (1 / 2), Fin 10000, Fin 5000, drip_sol), (Fin 4, Fin 2000, Fin 8000, drip_usdc)]
   \<and> ratio_eligible demo drip_sol \<and> \<not> ratio_eligible demo JNull
   \<and> ratios_sorted
        [(Fin (1 / 2), Fin 10000, Fin 5000, drip_sol), (Fin 4, Fin 2000, Fin 8000, drip_usdc)]
       = Inr [(Fin 4, Fin 2000, Fin 8000, drip_usdc), (Fin (1 / 2), Fin 10000, Fin 5000, drip_sol)]
   \<and> non_increasing [Fin 4, Fin (1 / 2)]
   \<and> render_ratio demo
         [(Fin 4, Fin 2000, Fin 8000, drip_usdc), (Fin (1 / 2), Fin 10000, Fin 5000, drip_sol)]
       = Inr [ratio_header 2,
              ratio_block demo 0 (Fin 4, Fin 2000, Fin 8000, drip_usdc),
              ratio_block demo 1 (Fin (1 / 2), Fin 10000, Fin 5000, drip_sol)]"
proof -
  let ?ps = "[drip_sol, JNull, drip_usdc]"
  let ?rs = "[(Fin (1 / 2), Fin 10000, Fin 5000, drip_sol), (Fin 4, Fin 2000, Fin 8000, drip_usdc)]"
  let ?srt = "[(Fin 4, Fin 2000, Fin 8000, drip_usdc), (Fin (1 / 2), Fin 10000, Fin 5000, drip_sol)]"
  have e1: "ratio_eligible demo drip_sol" and e2: "\<not> ratio_eligible demo JNull"
    using ratio_ranking [of demo ?ps drip_sol] ratio_ranking [of demo ?ps JNull]
    by (simp_all add: ex_defs)
  from ratio_ranking [of demo ?ps drip_sol] example_ratios
  obtain sorted_rs where s: "ratios_sorted ?rs = Inr sorted_rs"
    and o: "(\<forall>x\<in>set ?rs. fst x \<noteq> NaN) \<longrightarrow> non_increasing (map fst sorted_rs)"
    and r: "(\<forall>x\<in>set sorted_rs. \<not> isl (pair_labels (snd (snd (snd x))))) \<longrightarrow>
            render_ratio demo sorted_rs
              = Inr (ratio_header (length sorted_rs)
                     # map (\<lambda>(i, x). ratio_block demo i x) (enumerate 0 sorted_rs))"
    by blast
  from s have eq: "sorted_rs = ?srt" by (simp add: example_ratios_sorted)
  from o have ni: "non_increasing [Fin 4, Fin (1 / 2)]" by (simp add: eq)
  have "\<forall>x\<in>set sorted_rs. \<not> isl (pair_labels (snd (snd (snd x))))"
    unfolding eq
    by (simp add: drip_sol_def drip_usdc_def pair_labels_def token_symbol_def dex_id_def
        ebind_def py_or_def)
  with r have "render_ratio demo sorted_rs
              = Inr (ratio_header (length sorted_rs)
                     # map (\<lambda>(i, x). ratio_block demo i x) (enumerate 0 sorted_rs))"
    by blast
  then show ?thesis
    using e1 e2 ni example_ratios example_ratios_sorted
    by (simp add: eq enumerate_eq_zip numeral_2_eq_2)
qed

text \<open>
  Without the condition on NaN the order fails. Of three pairs with the ratios 1,
  infinity by infinity and 2, in this order, each is ranked, no comparison with the NaN
  of the second is true, and \<^verbatim>\<open>sorted\<close> returns them as they came: 2 follows 1.
\<close>

theorem ratio_ranking_nan_counterexample:
  "ratio_eligible demo ratio_nan_pair
   \<and> map_sum id (map fst)
       (ebind (ratios demo [ratio_one_pair, ratio_nan_pair, ratio_two_pair]) ratios_sorted)
     = Inr [Fin 1, NaN, Fin 2]
   \<and> map_sum id (map (snd \<circ> snd \<circ> snd))
       (ebind (ratios demo [ratio_one_pair, ratio_nan_pair, ratio_two_pair]) ratios_sorted)
     = Inr [ratio_one_pair, ratio_nan_pair, ratio_two_pair]
   \<and> \<not> non_increasing [Fin 1, NaN, Fin 2]"
proof -
  have r: "ratios demo [ratio_one_pair, ratio_nan_pair, ratio_two_pair]
     = Inr [(Fin 1, Fin 10000, Fin 10000, ratio_one_pair), (NaN, PInf, PInf, ratio_nan_pair),
            (Fin 2, Fin 1000, Fin 2000, ratio_two_pair)]"
    by (simp add: ratio_one_pair_def ratio_nan_pair_def ratio_two_pair_def liquidity_usd_def
        volume_h24_def ebind_def py_or_def to_double_demo)
  have s: "ratios_sorted [(Fin 1, Fin 10000, Fin 10000, ratio_one_pair),
            (NaN, PInf, PInf, ratio_nan_pair), (Fin 2, Fin 1000, Fin 2000, ratio_two_pair)]
     = Inr [(Fin 1, Fin 10000, Fin 10000, ratio_one_pair), (NaN, PInf, PInf, ratio_nan_pair),
            (Fin 2, Fin 1000, Fin 2000, ratio_two_pair)]"
    by (simp add: ratios_sorted_def sorted_reverse_def list_sort_def key_less_def)
  have e: "ratio_eligible demo ratio_nan_pair"
    by (simp add: ratio_eligible_def ratio_nan_pair_def liquidity_usd_def volume_h24_def
        ebind_def py_or_def)
  have n: "\<not> non_increasing [Fin 1, NaN, Fin 2]"
    by (simp add: non_increasing_def fle_def)
  show ?thesis
    unfolding r using e n by (simp add: s ebind_def)
qed

subsection \<open>The sort key of handle_volume\<close>

text \<open>
  When every filtered pair has a volume that converts and is not NaN, the sort succeeds
  and gives a stable descending order. When a volume does not convert, the exception of
  the key function leaves \<^verbatim>\<open>sorted\<close>, and with it the handler: the guard that the
  rendering loop has around the same expression is missing here.
\<close>

lemma pairs_sorted_raises:
  assumes "p \<in> set fp" and "isl (volume_h24 fl p)"
  shows "isl (pairs_sorted fl fp)"
  using key_list_raises [of p fp "volume_h24 fl"] assms
  by (auto simp: pairs_sorted_def sorted_reverse_def split: sum.splits)

lemma volume_report_raises:
  assumes "map_of obj ''pairs'' = Some (JArr ps)"
    and "p \<in> set (filtered_pairs fl ps)" and "isl (volume_h24 fl p)"
  shows "\<exists>e. volume_report fl show_summary (JObj obj) = Raised e"
proof -
  from assms(2) have ne: "ps \<noteq> []" "filtered_pairs fl ps \<noteq> []" by auto
  from pairs_sorted_raises [OF assms(2,3)]
  obtain e where "pairs_sorted fl (filtered_pairs fl ps) = Inl e"
    by (cases "pairs_sorted fl (filtered_pairs fl ps)") auto
  then show ?thesis
    using assms(1) ne by (simp add: volume_report_def py_or_def)
qed

lemma pairs_sorted_descending_stable:
  assumes "\<forall>p\<in>set fp. \<not> isl (volume_h24 fl p) \<and> vol24h fl p \<noteq> NaN"
  shows "\<exists>sorted_ps. pairs_sorted fl fp = Inr sorted_ps
     \<and> mset sorted_ps = mset fp
     \<and> non_increasing (map (vol24h fl) sorted_ps)
     \<and> (\<forall>k. filter (\<lambda>p. vol24h fl p = k) sorted_ps = filter (\<lambda>p. vol24h fl p = k) fp)"
proof -
  have s: "pairs_sorted fl fp = Inr (sort_desc (vol24h fl) fp)"
    using assms by (intro pairs_sorted_total) simp
  have "\<forall>p\<in>set fp. vol24h fl p \<noteq> NaN" using assms by simp
  from sort_desc_ordered [OF this] s show ?thesis
    by (simp add: sort_desc_mset non_increasing_def sorted_wrt_map)
qed

text \<open>
  C1. The claim says that an unparseable volume counts as 0 in the sort key. On the
  pairs list of the example followed by a pair with liquidity 1000 and the volume
  \<^verbatim>\<open>"abc"\<close>, both pairs pass the filter and the rendering loop would show the
  volume 0, but the handler ends with \<^verbatim>\<open>ValueError\<close> raised by the sort key, and
  sends nothing.
\<close>

theorem unguarded_sort_key_raises:
  "filtered_pairs demo [drip_sol, text_volume_pair] = [drip_sol, text_volume_pair]
   \<and> vol24h demo text_volume_pair = Fin 0
   \<and> volume_report demo True (JObj [(''pairs'', JArr [drip_sol, text_volume_pair])])
       = Raised ValueError"
  by (simp add: volume_report_def pairs_sorted_def sorted_reverse_def vol24h_def
      text_volume_pair_def demo_def ex_defs)

text \<open>
  C4. The claim says that a malformed volume field never aborts a report. On a pairs
  list with a pair whose \<^verbatim>\<open>volume\<close> is null, \<^verbatim>\<open>handle_volume\<close> ends with
  \<^verbatim>\<open>AttributeError\<close> and sends nothing, while \<^verbatim>\<open>handle_ratio\<close> skips the pair
  and sends its report.
\<close>

theorem malformed_volume_aborts_volume_report:
  "handle_volume demo (\<lambda>a. Inr (JObj [(''pairs'', JArr [drip_sol, null_volume_pair])]))
       home_token True
     = \<lparr> fetched = [home_token], outcome = Raised AttributeError \<rparr>
   \<and> (\<exists>txt. handle_ratio demo
         (\<lambda>a. Inr (JObj [(''pairs'', JArr [drip_sol, null_volume_pair])])) home_token
     = \<lparr> fetched = [home_token], outcome = ReplyMarkdown txt \<rparr>)"
  by (simp add: handle_volume_def handle_ratio_def volume_report_def ratio_report_def
      pairs_sorted_def sorted_reverse_def ratios_sorted_def render_ratio_def list_sort_def
      null_volume_pair_def to_double_demo ex_defs)

subsection \<open>The remainder of the summary\<close>

lemma max_double_pos: "0 < max_double"
  by (rule less_le_trans [OF _ max_double_ge]) simp
















lemma fadd_overflow: "fadd demo (Fin max_double) (Fin max_double) = PInf"
  using max_double_pos by (simp add: to_double_def demo_def)

subsection \<open>From the rendering loops to the replies\<close>

text \<open>
  The statements above speak of the filter, the sort and the rendering loops. For a
  fetched object whose pairs are well formed, the reply of each handler is the joined
  lines that its loop ends with.
\<close>

lemma volume_report_rendered:
  assumes "map_of obj ''pairs'' = Some (JArr ps)"
    and "filtered_pairs fl ps \<noteq> []"
    and "\<forall>p\<in>set (filtered_pairs fl ps). \<not> isl (volume_h24 fl p) \<and> \<not> isl (pair_labels p)"
  shows "\<exists>sorted_ps st.
           pairs_sorted fl (filtered_pairs fl ps) = Inr sorted_ps
         \<and> render_volume fl show_summary sorted_ps = Inr st
         \<and> volume_report fl show_summary (JObj obj)
             = ReplyMarkdown (join_lines
                 (lines st @ (if show_summary then summary_lines fl st else [])))"
proof -
  let ?fp = "filtered_pairs fl ps"
  let ?sorted = "sort_desc (vol24h fl) ?fp"
  have s: "pairs_sorted fl ?fp = Inr ?sorted"
    using assms(3) by (intro pairs_sorted_total) simp
  have wf: "\<forall>p\<in>set ?sorted. \<not> isl (liquidity_usd fl p) \<and> \<not> isl (pair_labels p)"
    using assms(3) by (auto simp: filtered_pairs_filter sort_desc_set)
  from assms(2) have ne: "ps \<noteq> []" by auto
  from render_volume_result [OF wf, of show_summary]
  obtain st where r: "render_volume fl show_summary ?sorted = Inr st" by blast
  have "volume_report fl show_summary (JObj obj)
          = ReplyMarkdown (join_lines
              (lines st @ (if show_summary then summary_lines fl st else [])))"
    using assms(1,2) ne by (simp add: volume_report_def py_or_def Let_def s r)
  with s r show ?thesis by blast
qed

lemma ratio_report_rendered:
  assumes "map_of obj ''pairs'' = Some (JArr ps)"
    and "filter (ratio_eligible fl) ps \<noteq> []"
    and "\<forall>p\<in>set ps. ratio_eligible fl p \<longrightarrow> \<not> isl (pair_labels p)"
  shows "\<exists>rs sorted_rs ls.
           ratios fl ps = Inr rs
         \<and> ratios_sorted rs = Inr sorted_rs
         \<and> render_ratio fl sorted_rs = Inr ls
         \<and> ratio_report fl (JObj obj) = ReplyMarkdown (join_lines ls)"
proof -
  let ?rs = "map (ratio_entry fl) (filter (ratio_eligible fl) ps)"
  let ?s = "sort_desc fst ?rs"
  have rs: "ratios fl ps = Inr ?rs" by (rule ratios_filter)
  have s: "ratios_sorted ?rs = Inr ?s" by (rule ratios_sorted_total)
  have wf: "\<forall>x\<in>set ?s. \<not> isl (pair_labels (snd (snd (snd x))))"
    using assms(3) by (auto simp: sort_desc_set ratio_entry_def Let_def)
  from assms(2) have ne: "ps \<noteq> []" by auto
  from render_ratio_result [OF wf, of fl]
  obtain ls where r: "render_ratio fl ?s = Inr ls" by blast
  have "ratio_report fl (JObj obj) = ReplyMarkdown (join_lines ls)"
    using assms(1,2) ne by (simp add: ratio_report_def py_or_def Let_def rs s r)
  with rs s r show ?thesis by blast
qed

end
